theory Spec2Isabelle
  imports Complex_Main "HOL-Library.Stream" "HOL-Library.AList" "HOL-Library.Log_Nat"
begin

chapter \<open>The model\<close>

section \<open>Errors\<close>

text \<open>
  The engine (SBM.cpp, Network.cpp) throws C string literals; the newer container
  (network.h) throws through the macros LOGIC_ERROR and RANGE_ERROR.  Every throw
  site of the three files is one constructor; \<open>SampleEmpty\<close> is the failure of
  the sampler on an empty sequence (the sampler's header is not part of the sources,
  its contract is: sample fails on an empty sequence).
\<close>

datatype error =
    ZeroMerges           \<comment> \<open>SBM.cpp 340: "Zero merges requested."\<close>
  | TooFewGroups         \<comment> \<open>SBM.cpp 369: "To few groups to perform merge."\<close>
  | LevelEmpty           \<comment> \<open>Network.cpp 141, 251: "Requested level is empty."\<close>
  | BlockAtFirstLevel    \<comment> \<open>Network.cpp 114: "Can't create block node at first level"\<close>
  | NodeNotFound         \<comment> \<open>Network.cpp 55: "Could not find requested node"\<close>
  | OutOfRange           \<comment> \<open>std::map::at / std::vector::at on a missing key\<close>
  | SampleEmpty          \<comment> \<open>Sampler::sample on an empty sequence\<close>
  | InvalidLevel         \<comment> \<open>Node: no ancestor at the requested level\<close>
  | Undefined            \<comment> \<open>undefined behaviour (no exception is thrown, nothing can catch it)\<close>
  | LogicError string    \<comment> \<open>network.h: LOGIC_ERROR(msg)\<close>
  | RangeError string    \<comment> \<open>network.h: RANGE_ERROR(msg)\<close>

section \<open>Doubles\<close>

text \<open>
  Line 524 of SBM.cpp divides and subtracts in \<open>double\<close>, the binary64 format of
  IEEE 754, and converts the result to \<open>int\<close>.  A double is a finite number, the
  negative zero, an infinity or a NaN; a finite double is written with the number it
  stands for, and \<open>Dbl 0\<close> is the positive zero.

  \<open>two_pow e\<close> is 2 to the power \<open>e\<close>.  \<open>ilog2 x\<close> is the binary exponent of a positive
  \<open>x\<close>, the \<open>k\<close> with \<open>2^k \<le> x < 2^(k+1)\<close>: one less than the number of bits of the
  integer part when \<open>x \<ge> 1\<close>, and otherwise the least \<open>k\<close> such that \<open>1/x \<le> 2^(-k)\<close>.
\<close>

definition two_pow :: "int \<Rightarrow> real" where
  "two_pow e = (if 0 \<le> e then 2 ^ nat e else 1 / 2 ^ nat (- e))"

definition ilog2 :: "real \<Rightarrow> int" where
  "ilog2 x = (if 1 \<le> x then bitlen \<lfloor>x\<rfloor> - 1 else - bitlen (\<lceil>1 / x\<rceil> - 1))"

text \<open>Rounding to the nearest integer, a tie to the even one.\<close>

definition round_half_even :: "real \<Rightarrow> int" where
  "round_half_even y =
     (let f = \<lfloor>y\<rfloor>; r = y - of_int f
      in if r < 1 / 2 then f else if 1 / 2 < r then f + 1 else if even f then f else f + 1)"

datatype double = Dbl real | NegZero | PosInf | NegInf | NaN

text \<open>
  The result of an operation is its exact result rounded to the nearest double, a tie
  to the double with the even significand (the default rounding mode).  The
  significand has 53 bits, so the doubles next to \<open>x\<close> are the multiples of
  \<open>2^(ilog2 |x| - 52)\<close>, and of \<open>2^(-1074)\<close> in the subnormal range; a result that
  rounds to \<open>2^1024\<close> or beyond is an infinity, one that rounds to zero keeps its sign.
\<close>

definition round_double :: "real \<Rightarrow> double" where
  "round_double x =
     (if x = 0 then Dbl 0
      else
        let e = max (ilog2 \<bar>x\<bar> - 52) (- 1074);
            m = round_half_even (x / two_pow e);
            y = of_int m * two_pow e
        in if two_pow 1024 \<le> \<bar>y\<bar> then (if x < 0 then NegInf else PosInf)
           else if m = 0 then (if x < 0 then NegZero else Dbl 0)
           else Dbl y)"

fun is_neg :: "double \<Rightarrow> bool" where
  "is_neg (Dbl v) = (v < 0)"
| "is_neg NegZero = True"
| "is_neg PosInf = False"
| "is_neg NegInf = True"
| "is_neg NaN = False"

definition is_zero :: "double \<Rightarrow> bool" where
  "is_zero d = (d = Dbl 0 \<or> d = NegZero)"

definition is_inf :: "double \<Rightarrow> bool" where
  "is_inf d = (d = PosInf \<or> d = NegInf)"

definition signed_zero :: "bool \<Rightarrow> double" where
  "signed_zero neg = (if neg then NegZero else Dbl 0)"

definition signed_inf :: "bool \<Rightarrow> double" where
  "signed_inf neg = (if neg then NegInf else PosInf)"

fun value_of :: "double \<Rightarrow> real" where
  "value_of (Dbl v) = v"
| "value_of d = 0"

text \<open>
  \<open>x / y\<close> on doubles.  The sign of the result is the exclusive or of the signs; a NaN
  operand, infinity by infinity and zero by zero give a NaN, a non-zero number by zero
  an infinity.
\<close>

definition double_div :: "double \<Rightarrow> double \<Rightarrow> double" where
  "double_div x y =
     (let neg = (is_neg x \<noteq> is_neg y)
      in if x = NaN \<or> y = NaN then NaN
         else if is_inf x then (if is_inf y then NaN else signed_inf neg)
         else if is_inf y then signed_zero neg
         else if is_zero y then (if is_zero x then NaN else signed_inf neg)
         else if is_zero x then signed_zero neg
         else round_double (value_of x / value_of y))"

text \<open>
  \<open>x - y\<close> on doubles.  The difference of two equal infinities is a NaN; an exact
  difference of zero is the positive zero, but for \<open>(-0) - (+0)\<close>, the negative one.
\<close>

definition double_sub :: "double \<Rightarrow> double \<Rightarrow> double" where
  "double_sub x y =
     (if x = NaN \<or> y = NaN then NaN
      else if is_inf x then (if is_inf y \<and> is_neg x = is_neg y then NaN else x)
      else if is_inf y then signed_inf (\<not> is_neg y)
      else if value_of x - value_of y = 0
           then (if x = NegZero \<and> y = Dbl 0 then NegZero else Dbl 0)
      else round_double (value_of x - value_of y))"

text \<open>The conversion of an \<open>int\<close> operand to \<open>double\<close>.\<close>

definition double_of_int :: "int \<Rightarrow> double" where
  "double_of_int i = round_double (of_int i)"

text \<open>
  \<open>int(x)\<close> on a double truncates toward zero.  The behaviour is undefined when the
  truncated number is not an \<open>int\<close> (32 bits), and for an infinity and a NaN.
\<close>

definition trunc_to_int :: "real \<Rightarrow> int" where
  "trunc_to_int x = (if 0 \<le> x then \<lfloor>x\<rfloor> else \<lceil>x\<rceil>)"

fun double_to_int :: "double \<Rightarrow> error + int" where
  "double_to_int (Dbl v) =
     (if - 2147483648 \<le> trunc_to_int v \<and> trunc_to_int v \<le> 2147483647
      then Inr (trunc_to_int v) else Inl Undefined)"
| "double_to_int NegZero = Inr 0"
| "double_to_int d = Inl Undefined"

section \<open>The collapse schedule: how many merges to ask for (SBM.cpp 521--534)\<close>

text \<open>
  Lines 524--534 of \<open>SBM::collapse_groups\<close>.  \<open>SIGMA\<close> is a field of the engine
  declared in SBM.h (not part of the sources), a \<open>double\<close>: in
  \<open>int(curr_num_groups - (curr_num_groups / SIGMA))\<close> the count is converted to
  \<open>double\<close> for the division and for the subtraction, each of the two rounds, and
  the outer \<open>int( )\<close> truncates the difference.
\<close>

definition num_merges_to_make :: "double \<Rightarrow> int \<Rightarrow> int \<Rightarrow> error + int" where
  "num_merges_to_make SIGMA_r curr_num_groups desired_num_groups =
     (case double_to_int
             (double_sub (double_of_int curr_num_groups)
                (double_div (double_of_int curr_num_groups) SIGMA_r)) of
        Inl e \<Rightarrow> Inl e
      | Inr num_merges \<Rightarrow>
          (let num_merges = (if num_merges < 1 then 1 else num_merges);
               num_groups_after_merge = curr_num_groups - num_merges
           in if num_groups_after_merge < desired_num_groups
              then Inr (curr_num_groups - desired_num_groups)
              else Inr num_merges))"

section \<open>The decision on a proposed move (SBM.cpp 36--156)\<close>

text \<open>
  \<open>std::map<NodePtr, int>\<close>, the histogram that \<open>gather_connections_to_level\<close>
  returns: the blocks a node is connected to, each with the number of edges.  It is
  an association list here; the key type \<open>'k\<close> stands for the node pointer.  The
  iteration order of the C++ map (the order of the pointers) is the order of the
  list.

  \<open>m[k]\<close> on a \<open>std::map\<close> returns the stored count and, when \<open>k\<close> is absent,
  inserts \<open>k\<close> with the count 0 first: \<open>count_at\<close> is the value read,
  \<open>touch\<close> the map left behind.
\<close>

type_synonym 'k edge_counts = "('k \<times> int) list"

definition count_at :: "'k edge_counts \<Rightarrow> 'k \<Rightarrow> int" where
  "count_at m k = (case map_of m k of Some c \<Rightarrow> c | None \<Rightarrow> 0)"

definition touch :: "'k edge_counts \<Rightarrow> 'k \<Rightarrow> 'k edge_counts" where
  "touch m k = (case map_of m k of Some c \<Rightarrow> m | None \<Rightarrow> m @ [(k, 0)])"

text \<open>
  \<open>process_group_pair\<close> (lines 36--65).  The iterator \<open>con_group_it\<close> is passed as
  its two components: the degree of the block it points to and the edge count.  The
  two \<open>double *\<close> accumulators are the pair that is passed in and returned.  A double
  is modelled by the real number it holds.
\<close>

definition process_group_pair ::
  "real \<Rightarrow> real \<Rightarrow> real \<Rightarrow> real \<Rightarrow> real \<Rightarrow> real \<times> real \<Rightarrow> real \<times> real" where
  "process_group_pair neighbor_deg edge_count_pre edges_from_node
       moved_degree_pre moved_degree_post acc =
     (let edge_count_post = edge_count_pre + edges_from_node;
          entropy_pre_delta =
            (if edge_count_pre > 0
             then edge_count_pre * ln (edge_count_pre / (moved_degree_pre * neighbor_deg))
             else 0);
          entropy_post_delta =
            (if edge_count_post > 0
             then edge_count_post * ln (edge_count_post / (moved_degree_post * neighbor_deg))
             else 0)
      in (fst acc + entropy_pre_delta, snd acc + entropy_post_delta))"

text \<open>
  The quotients that \<open>process_group_pair\<close> hands to \<open>log\<close>, each as the pair of its
  numerator and its denominator: the first call is made only on the branch
  \<open>edge_count_pre > 0\<close>, the second only on the branch \<open>edge_count_post > 0\<close>.
\<close>

definition process_group_pair_log_calls ::
  "real \<Rightarrow> real \<Rightarrow> real \<Rightarrow> real \<Rightarrow> real \<Rightarrow> (real \<times> real) list" where
  "process_group_pair_log_calls neighbor_deg edge_count_pre edges_from_node
       moved_degree_pre moved_degree_post =
     (let edge_count_post = edge_count_pre + edges_from_node
      in (if edge_count_pre > 0 then [(edge_count_pre, moved_degree_pre * neighbor_deg)] else []) @
         (if edge_count_post > 0 then [(edge_count_post, moved_degree_post * neighbor_deg)] else []))"

text \<open>
  The loop of lines 103--113 over the old block's histogram.  \<open>node_edges[t]\<close> is read
  with \<open>operator[]\<close>, so the node's own histogram is threaded through the loop.
\<close>

fun old_group_loop ::
  "('k \<Rightarrow> int) \<Rightarrow> real \<Rightarrow> real \<Rightarrow> 'k edge_counts \<Rightarrow> 'k edge_counts \<Rightarrow> real \<times> real
     \<Rightarrow> 'k edge_counts \<times> (real \<times> real)" where
  "old_group_loop degree_of old_group_degree_pre old_group_degree_post [] node_edges acc =
     (node_edges, acc)"
| "old_group_loop degree_of old_group_degree_pre old_group_degree_post ((t, e) # rest) node_edges acc =
     old_group_loop degree_of old_group_degree_pre old_group_degree_post rest
       (touch node_edges t)
       (process_group_pair (of_int (degree_of t)) (of_int e) (of_int (- count_at node_edges t))
          old_group_degree_pre old_group_degree_post acc)"

text \<open>The loop of lines 116--126 over the new block's histogram.\<close>

fun new_group_loop ::
  "('k \<Rightarrow> int) \<Rightarrow> real \<Rightarrow> real \<Rightarrow> 'k edge_counts \<Rightarrow> 'k edge_counts \<Rightarrow> real \<times> real
     \<Rightarrow> 'k edge_counts \<times> (real \<times> real)" where
  "new_group_loop degree_of new_group_degree_pre new_group_degree_post [] node_edges acc =
     (node_edges, acc)"
| "new_group_loop degree_of new_group_degree_pre new_group_degree_post ((t, e) # rest) node_edges acc =
     new_group_loop degree_of new_group_degree_pre new_group_degree_post rest
       (touch node_edges t)
       (process_group_pair (of_int (degree_of t)) (of_int e) (of_int (count_at node_edges t))
          new_group_degree_pre new_group_degree_post acc)"

text \<open>
  The loop of lines 134--143 over the node's histogram, as the two loops before it
  left it.  The pair is (\<open>pre_move_prob\<close>, \<open>post_move_prob\<close>).  The two block
  histograms are read with \<open>operator[]\<close> as well; neither is used after this loop,
  so the keys this adds to them are not kept.
\<close>

fun move_prob_loop ::
  "real \<Rightarrow> 'k edge_counts \<Rightarrow> 'k edge_counts \<Rightarrow> 'k edge_counts \<Rightarrow> real \<times> real \<Rightarrow> real \<times> real" where
  "move_prob_loop EPS old_group_edges new_group_edges [] acc = acc"
| "move_prob_loop EPS old_group_edges new_group_edges ((t, n) # rest) acc =
     move_prob_loop EPS old_group_edges new_group_edges rest
       (fst acc + (of_int (count_at old_group_edges t) + EPS),
        snd acc + (of_int (count_at new_group_edges t) + EPS))"

record Proposal_Res =
  entropy_delta :: real
  prob_of_accept :: real

text \<open>
  \<open>SBM::make_proposal_decision\<close> (lines 70--156).  What the function reads from the
  node, its block and the proposed block are its arguments: the three degrees, the
  three histograms \<open>gather_connections_to_level(group_level)\<close> returns for them, and
  \<open>degree_of\<close>, the degree of the block behind a key.  \<open>EPS\<close> and \<open>BETA\<close> are fields
  of the engine (SBM.h).
\<close>

definition make_proposal_decision ::
  "real \<Rightarrow> real \<Rightarrow> ('k \<Rightarrow> int) \<Rightarrow> int \<Rightarrow> int \<Rightarrow> int
     \<Rightarrow> 'k edge_counts \<Rightarrow> 'k edge_counts \<Rightarrow> 'k edge_counts \<Rightarrow> Proposal_Res" where
  "make_proposal_decision EPS BETA degree_of node_deg old_group_deg new_group_deg
       node_edges new_group_edges old_group_edges =
     (let node_degree = (of_int node_deg :: real);
          old_group_degree_pre = (of_int old_group_deg :: real);
          new_group_degree_pre = (of_int new_group_deg :: real);
          old_group_degree_post = old_group_degree_pre - node_degree;
          new_group_degree_post = new_group_degree_pre + node_degree;
          (node_edges1, acc1) =
             old_group_loop degree_of old_group_degree_pre old_group_degree_post
               old_group_edges node_edges (0, 0);
          (node_edges2, acc2) =
             new_group_loop degree_of new_group_degree_pre new_group_degree_post
               new_group_edges node_edges1 acc1;
          entropy_pre = fst acc2;
          entropy_post = snd acc2;
          (pre_move_prob, post_move_prob) =
             move_prob_loop EPS old_group_edges new_group_edges node_edges2 (0, 0);
          entropy_delta = entropy_post - entropy_pre;
          acceptance_prob = exp (BETA * entropy_delta) * (pre_move_prob / post_move_prob)
      in \<lparr> entropy_delta = entropy_delta,
           prob_of_accept = (if acceptance_prob > 1 then 1 else acceptance_prob) \<rparr>)"

text \<open>
  The quotients handed to \<open>log\<close> during one call of \<open>make_proposal_decision\<close>: those
  of the first loop, then those of the second.
\<close>

fun old_group_log_calls ::
  "('k \<Rightarrow> int) \<Rightarrow> real \<Rightarrow> real \<Rightarrow> 'k edge_counts \<Rightarrow> 'k edge_counts \<Rightarrow> (real \<times> real) list" where
  "old_group_log_calls degree_of d_pre d_post [] node_edges = []"
| "old_group_log_calls degree_of d_pre d_post ((t, e) # rest) node_edges =
     process_group_pair_log_calls (of_int (degree_of t)) (of_int e)
        (of_int (- count_at node_edges t)) d_pre d_post @
     old_group_log_calls degree_of d_pre d_post rest (touch node_edges t)"

fun new_group_log_calls ::
  "('k \<Rightarrow> int) \<Rightarrow> real \<Rightarrow> real \<Rightarrow> 'k edge_counts \<Rightarrow> 'k edge_counts \<Rightarrow> (real \<times> real) list" where
  "new_group_log_calls degree_of d_pre d_post [] node_edges = []"
| "new_group_log_calls degree_of d_pre d_post ((t, e) # rest) node_edges =
     process_group_pair_log_calls (of_int (degree_of t)) (of_int e)
        (of_int (count_at node_edges t)) d_pre d_post @
     new_group_log_calls degree_of d_pre d_post rest (touch node_edges t)"

definition make_proposal_decision_log_calls ::
  "('k \<Rightarrow> int) \<Rightarrow> int \<Rightarrow> int \<Rightarrow> int
     \<Rightarrow> 'k edge_counts \<Rightarrow> 'k edge_counts \<Rightarrow> 'k edge_counts \<Rightarrow> (real \<times> real) list" where
  "make_proposal_decision_log_calls degree_of node_deg old_group_deg new_group_deg
       node_edges new_group_edges old_group_edges =
     old_group_log_calls degree_of (of_int old_group_deg) (of_int old_group_deg - of_int node_deg)
       old_group_edges node_edges @
     new_group_log_calls degree_of (of_int new_group_deg) (of_int new_group_deg + of_int node_deg)
       new_group_edges
       (fst (old_group_loop degree_of (of_int old_group_deg) (of_int old_group_deg - of_int node_deg)
               old_group_edges node_edges (0, 0)))"

text \<open>
  The formulas of the specification, in its own words, to compare the code with.
  Section 4.4.2: a block pair with \<open>e\<close> edges between blocks of degrees \<open>e_r\<close> and
  \<open>e_t\<close> contributes \<open>e * ln (e / (e_r * e_t))\<close>, and a pair with no edge
  contributes 0.  Section 4.4.4: the ratio of the proposal probabilities weights
  the term of each neighbour block \<open>t\<close> of the node by \<open>n_t\<close>, the number of the
  node's edges to \<open>t\<close>.
\<close>

definition edge_entropy_term :: "int \<Rightarrow> int \<Rightarrow> int \<Rightarrow> real" where
  "edge_entropy_term e_rt e_r e_t =
     (if e_rt = 0 then 0 else of_int e_rt * ln (of_int e_rt / (of_int e_r * of_int e_t)))"

definition P_ratio_spec ::
  "real \<Rightarrow> 'k edge_counts \<Rightarrow> 'k edge_counts \<Rightarrow> 'k edge_counts \<Rightarrow> real" where
  "P_ratio_spec EPS node_edges old_group_edges new_group_edges =
     (\<Sum>(t, n_t) \<leftarrow> node_edges. of_int n_t * (of_int (count_at old_group_edges t) + EPS)) /
     (\<Sum>(t, n_t) \<leftarrow> node_edges. of_int n_t * (of_int (count_at new_group_edges t) + EPS))"

text \<open>
  Section 4.4.7 of the specification: \<open>num_merges = max(1, B - floor(B / sigma))\<close>,
  capped so that \<open>B\<close> does not dip below the target.
\<close>

definition num_merges_spec :: "real \<Rightarrow> int \<Rightarrow> int \<Rightarrow> int" where
  "num_merges_spec SIGMA_r B desired_num_groups =
     min (max 1 (B - \<lfloor>of_int B / SIGMA_r\<rfloor>)) (B - desired_num_groups)"

section \<open>Nodes\<close>

text \<open>
  Nodes live on a heap, a list of node records; a node pointer (\<open>NodePtr\<close>, a
  \<open>std::shared_ptr<Node>\<close> in Network.cpp and SBM.cpp, a raw \<open>Node*\<close> in network.h) is
  an index into it.  A node that is created is appended; a node that no container
  holds any more stays where it is, so a pointer kept to it still reads it, as a
  shared pointer does.

  The fields are those the three source files read and write: \<open>id\<close>, \<open>level\<close>,
  \<open>type\<close>, \<open>parent\<close>, \<open>children\<close>, \<open>degree\<close>, and the neighbour sequence
  (\<open>connections\<close>) behind \<open>get_connections_to_level\<close>.
\<close>

type_synonym NodePtr = nat

record Node =
  node_id :: string
  level :: int
  type :: int
  parent :: "NodePtr option"
  children :: "NodePtr list"
  degree :: int
  connections :: "NodePtr list"

definition new_Node :: "string \<Rightarrow> int \<Rightarrow> int \<Rightarrow> Node" where
  "new_Node i l t =
     \<lparr> node_id = i, level = l, type = t, parent = None, children = [], degree = 0,
       connections = [] \<rparr>"

text \<open>
  Modelled from the spec: the methods of \<open>Node\<close> (Node.h is not part of the sources).
  Section 4.2: \<open>set_parent(block)\<close> removes the node from the children of its previous
  parent (if any), adds it to the children of the new parent, and adjusts the degree
  of every ancestor on both parent chains by the node's degree.  The walk up a
  parent chain is bounded by the number of nodes on the heap.
\<close>

fun add_degree_up :: "nat \<Rightarrow> NodePtr option \<Rightarrow> int \<Rightarrow> Node list \<Rightarrow> Node list" where
  "add_degree_up 0 p d h = h"
| "add_degree_up (Suc fuel) None d h = h"
| "add_degree_up (Suc fuel) (Some a) d h =
     add_degree_up fuel (parent (h ! a)) d (h[a := (h ! a)\<lparr> degree := degree (h ! a) + d \<rparr>])"

definition remove_child :: "NodePtr \<Rightarrow> NodePtr \<Rightarrow> Node list \<Rightarrow> Node list" where
  "remove_child p c h = h[p := (h ! p)\<lparr> children := removeAll c (children (h ! p)) \<rparr>]"

definition add_child :: "NodePtr \<Rightarrow> NodePtr \<Rightarrow> Node list \<Rightarrow> Node list" where
  "add_child p c h = h[p := (h ! p)\<lparr> children := removeAll c (children (h ! p)) @ [c] \<rparr>]"

definition set_parent :: "NodePtr \<Rightarrow> NodePtr \<Rightarrow> Node list \<Rightarrow> Node list" where
  "set_parent c p h =
     (let d = degree (h ! c);
          h1 = (case parent (h ! c) of
                  None \<Rightarrow> h
                | Some old \<Rightarrow> add_degree_up (length h) (Some old) (- d) (remove_child old c h));
          h2 = add_child p c h1;
          h3 = h2[c := (h2 ! c)\<lparr> parent := Some p \<rparr>]
      in add_degree_up (length h3) (Some p) d h3)"

section \<open>The sampler\<close>

text \<open>
  Modelled from the spec: the sampler (Sampler.h is not part of the sources).
  Section 4.1: a seeded pseudo-random source; \<open>draw_unif\<close> returns a real in [0,1),
  \<open>sample_int(n)\<close> an integer in [0,n) and fails if \<open>n = 0\<close>, \<open>sample(seq)\<close> one
  element and fails on the empty sequence, \<open>shuffle(seq)\<close> is Fisher--Yates.  The
  state of a sampler is the stream of raw draws it has still to hand out; every
  call consumes one draw.
\<close>

type_synonym Sampler = "nat stream"

definition draw_unif :: "Sampler \<Rightarrow> real \<times> Sampler" where
  "draw_unif s = (real (shd s mod 4294967296) / 4294967296, stl s)"

definition sample_int :: "nat \<Rightarrow> Sampler \<Rightarrow> (error + nat) \<times> Sampler" where
  "sample_int n s = (if n = 0 then (Inl SampleEmpty, s) else (Inr (shd s mod n), stl s))"

definition sample :: "'a list \<Rightarrow> Sampler \<Rightarrow> (error + 'a) \<times> Sampler" where
  "sample xs s = (if xs = [] then (Inl SampleEmpty, s) else (Inr (xs ! (shd s mod length xs)), stl s))"

text \<open>
  Fisher--Yates: for \<open>i\<close> from the last index down to 1, swap the element at \<open>i\<close>
  with the element at a drawn index in \<open>[0, i]\<close>.
\<close>

fun shuffle_from :: "nat \<Rightarrow> 'a list \<Rightarrow> Sampler \<Rightarrow> 'a list \<times> Sampler" where
  "shuffle_from 0 xs s = (xs, s)"
| "shuffle_from (Suc i) xs s =
     (let j = shd s mod (Suc (Suc i))
      in shuffle_from i (xs[Suc i := xs ! j, j := xs ! (Suc i)]) (stl s))"

definition shuffle :: "'a list \<Rightarrow> Sampler \<Rightarrow> 'a list \<times> Sampler" where
  "shuffle xs s = (if length xs < 2 then (xs, s) else shuffle_from (length xs - 1) xs s)"

section \<open>The network of Network.cpp\<close>

text \<open>
  \<open>std::to_string\<close> on an \<open>int\<close>: the decimal digits, with a minus sign for a
  negative number.
\<close>

definition digit_char :: "nat \<Rightarrow> char" where
  "digit_char d = ''0123456789'' ! d"

function digits_of :: "nat \<Rightarrow> string" where
  "digits_of n =
     (if n < 10 then [digit_char n] else digits_of (n div 10) @ [digit_char (n mod 10)])"
  by pat_completeness auto
termination
  by (relation "measure (\<lambda>n. n)") auto

declare digits_of.simps [simp del]

definition to_string :: "int \<Rightarrow> string" where
  "to_string i = (if i < 0 then CHR ''-'' # digits_of (nat (- i)) else digits_of (nat i))"

text \<open>
  The class \<open>Network\<close> is declared in Network.h, which is not part of the sources;
  its members are read off Network.cpp.  \<open>nodes\<close> maps a level to the map from
  node id to node pointer (\<open>nodes.find(level)\<close>, \<open>nodes.at(level)->at(id)\<close>,
  \<open>(*node_level)[node_id] = new_node\<close>); \<open>node_type_counts\<close> maps a type to the map
  from level to the number of nodes counted (\<open>node_type_counts[type][level]++\<close>).  Both
  are association lists; a new key is appended, and iteration follows the list.
\<close>

type_synonym NodeLevel = "(string \<times> NodePtr) list"

record Network =
  heap :: "Node list"
  nodes :: "(int \<times> NodeLevel) list"
  node_type_counts :: "(int \<times> (int \<times> int) list) list"

definition level_map :: "'a Network_scheme \<Rightarrow> int \<Rightarrow> NodeLevel" where
  "level_map net l = (case map_of (nodes net) l of Some m \<Rightarrow> m | None \<Rightarrow> [])"

text \<open>\<open>Network::add_level\<close> (lines 6--15).\<close>

definition add_level :: "int \<Rightarrow> 'a Network_scheme \<Rightarrow> 'a Network_scheme" where
  "add_level l net =
     (if map_of (nodes net) l = None then net\<lparr> nodes := nodes net @ [(l, [])] \<rparr> else net)"

text \<open>
  \<open>Network::get_level\<close> (lines 22--40) returns a pointer to the level's map and creates
  the level when it is missing: the network it leaves is \<open>add_level l net\<close>, the map
  behind the pointer is read with \<open>level_map\<close>.
\<close>

definition get_level :: "int \<Rightarrow> 'a Network_scheme \<Rightarrow> 'a Network_scheme" where
  "get_level l net = add_level l net"

text \<open>\<open>Network::build_block_id\<close> (lines 64--72).\<close>

definition build_block_id :: "int \<Rightarrow> int \<Rightarrow> int \<Rightarrow> string" where
  "build_block_id t l index = to_string t @ ''-'' @ to_string l @ ''_'' @ to_string index"

text \<open>
  \<open>node_type_counts[type][level]\<close>: the count read, 0 for a key that is missing; and
  \<open>node_type_counts[type][level] += d\<close>, both lookups with \<open>operator[]\<close>, which
  leaves a missing key in the map.
\<close>

definition type_count :: "(int \<times> (int \<times> int) list) list \<Rightarrow> int \<Rightarrow> int \<Rightarrow> int" where
  "type_count counts t l =
     (case map_of counts t of
        Some m \<Rightarrow> (case map_of m l of Some c \<Rightarrow> c | None \<Rightarrow> 0)
      | None \<Rightarrow> 0)"

definition bump_count ::
  "int \<Rightarrow> int \<Rightarrow> int \<Rightarrow> (int \<times> (int \<times> int) list) list \<Rightarrow> (int \<times> (int \<times> int) list) list" where
  "bump_count t l d counts =
     (let of_type = (case map_of counts t of Some m \<Rightarrow> m | None \<Rightarrow> []);
          c = (case map_of of_type l of Some c \<Rightarrow> c | None \<Rightarrow> 0)
      in AList.update t (AList.update l (c + d) of_type) counts)"

text \<open>\<open>Network::add_node\<close> (lines 78--101).\<close>

definition Network_add_node :: "string \<Rightarrow> int \<Rightarrow> int \<Rightarrow> 'a Network_scheme \<Rightarrow> NodePtr \<times> 'a Network_scheme" where
  "Network_add_node i t l net =
     (let net1 = get_level l net;
          node_level = level_map net1 l;
          node_id = (if i = ''new block''
                     then build_block_id t l (int (length node_level))
                     else i);
          new_node = length (heap net1)
      in (new_node,
          net1\<lparr> heap := heap net1 @ [new_Node node_id l t],
                nodes := AList.update l (AList.update node_id new_node node_level) (nodes net1),
                node_type_counts := bump_count t l 1 (node_type_counts net1) \<rparr>))"

text \<open>\<open>Network::create_block_node\<close> (lines 107--119).\<close>

definition create_block_node ::
  "int \<Rightarrow> int \<Rightarrow> 'a Network_scheme \<Rightarrow> (error + NodePtr) \<times> 'a Network_scheme" where
  "create_block_node t l net =
     (if l = 0 then (Inl BlockAtFirstLevel, net)
      else (case Network_add_node ''new block'' t l net of (p, net') \<Rightarrow> (Inr p, net')))"

text \<open>\<open>Network::get_nodes_from_level\<close> and the two functions built on it (lines 127--186).\<close>

definition get_nodes_from_level ::
  "int \<Rightarrow> int \<Rightarrow> bool \<Rightarrow> 'a Network_scheme \<Rightarrow> error + NodePtr list" where
  "get_nodes_from_level t l match_type net =
     (case map_of (nodes net) l of
        None \<Rightarrow> Inl OutOfRange
      | Some node_level \<Rightarrow>
          if length node_level = 0 then Inl LevelEmpty
          else Inr (filter (\<lambda>p. if match_type then type (heap net ! p) = t
                                 else type (heap net ! p) \<noteq> t)
                      (map snd node_level)))"

definition get_nodes_of_type_at_level :: "int \<Rightarrow> int \<Rightarrow> 'a Network_scheme \<Rightarrow> error + NodePtr list" where
  "get_nodes_of_type_at_level t l net = get_nodes_from_level t l True net"

definition get_nodes_not_of_type_at_level :: "int \<Rightarrow> int \<Rightarrow> 'a Network_scheme \<Rightarrow> error + NodePtr list" where
  "get_nodes_not_of_type_at_level t l net = get_nodes_from_level t l False net"

text \<open>
  \<open>Network::initialize_blocks\<close> (lines 230--299).  The function returns nothing; an
  exception leaves the network as it was changed up to the throw, so the result is
  the outcome together with the network.

  The inner loop of lines 273--277: \<open>num_blocks\<close> calls of \<open>create_block_node\<close>, the
  new blocks pushed onto the vector of the type.
\<close>

fun create_blocks ::
  "nat \<Rightarrow> int \<Rightarrow> int \<Rightarrow> 'a Network_scheme \<Rightarrow> (error + NodePtr list) \<times> 'a Network_scheme" where
  "create_blocks 0 t l net = (Inr [], net)"
| "create_blocks (Suc n) t l net =
     (case create_block_node t l net of
        (Inl e, net1) \<Rightarrow> (Inl e, net1)
      | (Inr p, net1) \<Rightarrow>
          (case create_blocks n t l net1 of
             (Inl e, net2) \<Rightarrow> (Inl e, net2)
           | (Inr ps, net2) \<Rightarrow> (Inr (p # ps), net2)))"

text \<open>The loop of lines 265--278 over the types of \<open>node_type_counts\<close>.\<close>

fun blocks_for_types ::
  "int list \<Rightarrow> nat \<Rightarrow> int \<Rightarrow> 'a Network_scheme
     \<Rightarrow> (error + (int \<times> NodePtr list) list) \<times> 'a Network_scheme" where
  "blocks_for_types [] num_blocks l net = (Inr [], net)"
| "blocks_for_types (t # ts) num_blocks l net =
     (case create_blocks num_blocks t l net of
        (Inl e, net1) \<Rightarrow> (Inl e, net1)
      | (Inr ps, net1) \<Rightarrow>
          (case blocks_for_types ts num_blocks l net1 of
             (Inl e, net2) \<Rightarrow> (Inl e, net2)
           | (Inr tbs, net2) \<Rightarrow> (Inr ((t, ps) # tbs), net2)))"

text \<open>
  The loop of lines 283--298 over the nodes of the level: a block of its own for the
  node, or one drawn by \<open>block_sampler\<close> from the blocks of the node's type
  (\<open>type_to_blocks[node_type]\<close>, empty for a type without entry); then
  \<open>set_parent\<close>.
\<close>

fun assign_blocks ::
  "bool \<Rightarrow> int \<Rightarrow> (int \<times> NodePtr list) list \<Rightarrow> NodePtr list \<Rightarrow> Sampler \<Rightarrow> 'a Network_scheme
     \<Rightarrow> (error + unit) \<times> 'a Network_scheme" where
  "assign_blocks one_block_per_node l type_to_blocks [] block_sampler net = (Inr (), net)"
| "assign_blocks one_block_per_node l type_to_blocks (n # ns) block_sampler net =
     (let node_type = type (heap net ! n) in
      if one_block_per_node then
        (case create_block_node node_type (l + 1) net of
           (Inl e, net1) \<Rightarrow> (Inl e, net1)
         | (Inr new_block, net1) \<Rightarrow>
             assign_blocks one_block_per_node l type_to_blocks ns block_sampler
               (net1\<lparr> heap := set_parent n new_block (heap net1) \<rparr>))
      else
        (case sample (case map_of type_to_blocks node_type of Some bs \<Rightarrow> bs | None \<Rightarrow> [])
                block_sampler of
           (Inl e, s1) \<Rightarrow> (Inl e, net)
         | (Inr new_block, s1) \<Rightarrow>
             assign_blocks one_block_per_node l type_to_blocks ns s1
               (net\<lparr> heap := set_parent n new_block (heap net) \<rparr>)))"

text \<open>
  \<open>block_sampler\<close> is the sampler that line 245 constructs (\<open>Sampler block_sampler;\<close>);
  what a default-constructed sampler draws is fixed by Sampler.h, so its state is an
  argument here.  It is a local of the function: the network holds no sampler, and
  none is handed in by the caller.
\<close>

definition Network_initialize_blocks ::
  "int \<Rightarrow> int \<Rightarrow> Sampler \<Rightarrow> 'a Network_scheme \<Rightarrow> (error + unit) \<times> 'a Network_scheme" where
  "Network_initialize_blocks num_blocks l block_sampler net =
     (let block_level = l + 1;
          net0 = get_level block_level net;
          net1 = net0\<lparr> nodes := AList.update block_level [] (nodes net0) \<rparr>
      in case map_of (nodes net1) l of
           None \<Rightarrow> (Inl OutOfRange, net1)
         | Some node_level \<Rightarrow>
             if length node_level = 0 then (Inl LevelEmpty, net1)
             else
               (let one_block_per_node = (num_blocks = - 1) in
                case (if \<not> one_block_per_node
                      then blocks_for_types (map fst (node_type_counts net1)) (nat num_blocks)
                             (l + 1) net1
                      else (Inr [], net1)) of
                  (Inl e, net2) \<Rightarrow> (Inl e, net2)
                | (Inr type_to_blocks, net2) \<Rightarrow>
                    assign_blocks one_block_per_node l type_to_blocks (map snd node_level)
                      block_sampler net2))"

text \<open>\<open>Network::give_every_node_at_level_own_block\<close> (lines 221--224).\<close>

definition give_every_node_at_level_own_block ::
  "int \<Rightarrow> Sampler \<Rightarrow> 'a Network_scheme \<Rightarrow> (error + unit) \<times> 'a Network_scheme" where
  "give_every_node_at_level_own_block l block_sampler net = Network_initialize_blocks (- 1) l block_sampler net"

text \<open>
  \<open>Network::clean_empty_blocks\<close> (lines 318--376).  The scan of one level (lines
  337--360) collects the childless blocks, takes each out of the children of its
  parent and lowers the count of its type; the ids collected are erased from the
  level afterwards (lines 363--372).  The state of the scan is the heap, the counts,
  the blocks removed and the ids to delete.
\<close>

fun scan_level ::
  "int \<Rightarrow> NodePtr list \<Rightarrow> Node list \<times> (int \<times> (int \<times> int) list) list \<times> NodePtr list \<times> string list
     \<Rightarrow> Node list \<times> (int \<times> (int \<times> int) list) list \<times> NodePtr list \<times> string list" where
  "scan_level l [] st = st"
| "scan_level l (current_block # rest) (h, counts, blocks_removed, blocks_to_delete) =
     (if length (children (h ! current_block)) = 0
      then scan_level l rest
             ((case parent (h ! current_block) of
                 Some p \<Rightarrow> remove_child p current_block h
               | None \<Rightarrow> h),
              bump_count (type (h ! current_block)) l (- 1) counts,
              blocks_removed @ [current_block],
              blocks_to_delete @ [node_id (h ! current_block)])
      else scan_level l rest (h, counts, blocks_removed, blocks_to_delete))"

fun clean_levels ::
  "int list \<Rightarrow> NodePtr list \<Rightarrow> 'a Network_scheme \<Rightarrow> (error + NodePtr list) \<times> 'a Network_scheme" where
  "clean_levels [] blocks_removed net = (Inr blocks_removed, net)"
| "clean_levels (l # ls) blocks_removed net =
     (case map_of (nodes net) l of
        None \<Rightarrow> (Inl OutOfRange, net)
      | Some block_level \<Rightarrow>
          (case scan_level l (map snd block_level) (heap net, node_type_counts net, blocks_removed, []) of
             (h, counts, removed, blocks_to_delete) \<Rightarrow>
               clean_levels ls removed
                 (net\<lparr> heap := h, node_type_counts := counts,
                       nodes := AList.update l
                                  (fold AList.delete blocks_to_delete block_level) (nodes net) \<rparr>)))"

definition clean_empty_blocks ::
  "'a Network_scheme \<Rightarrow> (error + NodePtr list) \<times> 'a Network_scheme" where
  "clean_empty_blocks net =
     clean_levels (map int [1 ..< length (nodes net)]) [] net"

text \<open>\<open>Network::get_state\<close> (lines 384--432): one entry per node of every level.\<close>

record Network_State_Dump =
  sd_id :: "string list"
  sd_level :: "int list"
  sd_parent :: "string list"
  sd_type :: "int list"

definition dump_level :: "Node list \<Rightarrow> int \<Rightarrow> NodeLevel \<Rightarrow> Network_State_Dump \<Rightarrow> Network_State_Dump" where
  "dump_level h l node_level state =
     fold (\<lambda>(k, current_node) st.
             st\<lparr> sd_id := sd_id st @ [node_id (h ! current_node)],
                 sd_level := sd_level st @ [l],
                 sd_type := sd_type st @ [type (h ! current_node)],
                 sd_parent := sd_parent st @
                    [case parent (h ! current_node) of
                       Some p \<Rightarrow> node_id (h ! p) | None \<Rightarrow> ''none''] \<rparr>)
          node_level state"

definition Network_get_state :: "'a Network_scheme \<Rightarrow> Network_State_Dump" where
  "Network_get_state net =
     fold (\<lambda>(l, node_level) st. dump_level (heap net) l node_level st) (nodes net)
       \<lparr> sd_id = [], sd_level = [], sd_parent = [], sd_type = [] \<rparr>"

section \<open>The network of network.h\<close>

text \<open>
  \<open>class SBM_Network\<close> (network.h 30--336).  \<open>nodes\<close> is a vector of levels, a level a
  vector with one entry per type, the entry the vector of the nodes of that type;
  the vectors own the nodes (\<open>std::unique_ptr\<close>), here they hold the node
  pointers.  \<open>type_name_to_int\<close> is a \<open>std::map\<close>, an association list here.
\<close>

record SBM_Network =
  sbm_heap :: "Node list"
  sbm_nodes :: "NodePtr list list list"
  types :: "string list"
  type_name_to_int :: "(string \<times> int) list"
  random_sampler :: Sampler
  block_counter :: int

text \<open>\<open>State_Dump\<close> (lines 15--28): four parallel sequences.\<close>

record State_Dump =
  ids :: "string list"
  types_of :: "string list"
  parents :: "string list"
  levels :: "int list"

definition num_levels :: "SBM_Network \<Rightarrow> int" where
  "num_levels net = int (length (sbm_nodes net))"

definition num_types :: "SBM_Network \<Rightarrow> int" where
  "num_types net = int (length (types net))"

text \<open>\<open>get_type_index\<close> (lines 43--52).\<close>

definition get_type_index :: "SBM_Network \<Rightarrow> string \<Rightarrow> error + int" where
  "get_type_index net name =
     (case map_of (type_name_to_int net) name of
        None \<Rightarrow> Inl (LogicError (''Type '' @ name @ '' doesn't exist in network''))
      | Some i \<Rightarrow> Inr i)"

text \<open>
  \<open>check_for_level\<close> (lines 54--59).  \<open>level >= nodes.size()\<close> compares an \<open>int\<close> with
  a \<open>size_t\<close>: the level is converted to unsigned, so a negative level is refused
  as well.
\<close>

definition check_for_level :: "SBM_Network \<Rightarrow> int \<Rightarrow> error + unit" where
  "check_for_level net l =
     (if l < 0 \<or> l \<ge> int (length (sbm_nodes net))
      then Inl (RangeError ''Node requested in level that does not exist'')
      else Inr ())"

text \<open>\<open>check_for_type\<close> (lines 61--65): both sides are \<open>int\<close>.\<close>

definition check_for_type :: "SBM_Network \<Rightarrow> int \<Rightarrow> error + unit" where
  "check_for_type net type_index =
     (if type_index \<ge> num_types net
      then Inl (RangeError (''Type '' @ to_string type_index @ '' does not exist in network.''))
      else Inr ())"

text \<open>\<open>build_level\<close> (lines 217--220).\<close>

definition build_level :: "SBM_Network \<Rightarrow> SBM_Network" where
  "build_level net =
     net\<lparr> sbm_nodes := sbm_nodes net @ [replicate (length (types net)) []] \<rparr>"

text \<open>
  The constructor (lines 71--82).  \<open>type_name_to_int[type_name] = c_index++\<close>: a name
  that is listed twice keeps its last index.
\<close>

definition SBM_Network_new :: "string list \<Rightarrow> Sampler \<Rightarrow> SBM_Network" where
  "SBM_Network_new node_types seeded_sampler =
     build_level
       \<lparr> sbm_heap = [], sbm_nodes = [], types = node_types,
         type_name_to_int =
           fold (\<lambda>(type_name, c_index) m. AList.update type_name c_index m)
             (zip node_types (map int [0 ..< length node_types])) [],
         random_sampler = seeded_sampler, block_counter = 0 \<rparr>"

text \<open>
  \<open>get_nodes_of_type(type_index, level)\<close> (lines 308--318): \<open>check_for_type\<close>, then
  \<open>check_for_level\<close>, then the vector.  A negative \<open>type_index\<close> passes
  \<open>check_for_type\<close> and indexes the level out of range, which is undefined.
\<close>

definition get_nodes_of_type :: "SBM_Network \<Rightarrow> int \<Rightarrow> int \<Rightarrow> error + NodePtr list" where
  "get_nodes_of_type net type_index l =
     (case check_for_type net type_index of
        Inl e \<Rightarrow> Inl e
      | Inr u \<Rightarrow>
          (case check_for_level net l of
             Inl e \<Rightarrow> Inl e
           | Inr u \<Rightarrow>
               if type_index < 0 then Inl Undefined
               else Inr (sbm_nodes net ! nat l ! nat type_index)))"

text \<open>
  \<open>add_node\<close> (lines 157--173).  The result is the outcome (the pointer to the new
  node, or the error) and the network.
\<close>

definition SBM_Network_add_node ::
  "string \<Rightarrow> string \<Rightarrow> int \<Rightarrow> SBM_Network \<Rightarrow> (error + NodePtr) \<times> SBM_Network" where
  "SBM_Network_add_node i type_name l net =
     (case get_type_index net type_name of
        Inl e \<Rightarrow> (Inl e, net)
      | Inr type_index \<Rightarrow>
          (case get_nodes_of_type net type_index l of
             Inl e \<Rightarrow> (Inl e, net)
           | Inr nodes_of_type \<Rightarrow>
               (let node_ptr = length (sbm_heap net)
                in (Inr node_ptr,
                    net\<lparr> sbm_heap := sbm_heap net @ [new_Node i l type_index],
                          sbm_nodes := (sbm_nodes net)
                             [nat l := (sbm_nodes net ! nat l)
                                [nat type_index := nodes_of_type @ [node_ptr]]] \<rparr>))))"

text \<open>\<open>has_blocks\<close>, \<open>delete_block_level\<close>, \<open>delete_all_blocks\<close> (lines 222--239).\<close>

definition has_blocks :: "SBM_Network \<Rightarrow> bool" where
  "has_blocks net = (num_levels net > 1)"

definition delete_block_level :: "SBM_Network \<Rightarrow> (error + unit) \<times> SBM_Network" where
  "delete_block_level net =
     (if has_blocks net then (Inr (), net\<lparr> sbm_nodes := butlast (sbm_nodes net) \<rparr>)
      else (Inl (LogicError ''No block level to delete.''), net))"

function delete_all_blocks :: "SBM_Network \<Rightarrow> SBM_Network" where
  "delete_all_blocks net =
     (if has_blocks net then delete_all_blocks (snd (delete_block_level net)) else net)"
  by pat_completeness auto
termination
  by (relation "measure (\<lambda>net. length (sbm_nodes net))")
     (auto simp: has_blocks_def num_levels_def delete_block_level_def)

declare delete_all_blocks.simps [simp del]

section \<open>The engine of SBM.cpp\<close>

text \<open>
  \<open>class SBM\<close> is declared in SBM.h, which is not part of the sources.  SBM.cpp calls
  the functions of Network.cpp on itself (\<open>get_level\<close>, \<open>get_nodes_of_type_at_level\<close>)
  and reads the fields \<open>sampler\<close>, \<open>EPS\<close>, \<open>BETA\<close>, \<open>GREEDY\<close>,
  \<open>N_CHECKS_PER_GROUP\<close> and \<open>SIGMA\<close>: the engine is the network extended by these.
  SBM.cpp names a block a group; \<open>give_every_node_at_level_own_group\<close>,
  \<open>clean_empty_groups\<close> and \<open>create_group_node\<close> are the functions that Network.cpp
  defines as \<open>give_every_node_at_level_own_block\<close>, \<open>clean_empty_blocks\<close> and
  \<open>create_block_node\<close>.
\<close>

record SBM = Network +
  sampler :: Sampler
  EPS :: real
  BETA :: real
  GREEDY :: bool
  N_CHECKS_PER_GROUP :: int
  SIGMA_r :: double

definition give_every_node_at_level_own_group ::
  "int \<Rightarrow> Sampler \<Rightarrow> 'a Network_scheme \<Rightarrow> (error + unit) \<times> 'a Network_scheme" where
  "give_every_node_at_level_own_group l block_sampler net =
     give_every_node_at_level_own_block l block_sampler net"

definition clean_empty_groups ::
  "'a Network_scheme \<Rightarrow> (error + NodePtr list) \<times> 'a Network_scheme" where
  "clean_empty_groups net = clean_empty_blocks net"

definition create_group_node ::
  "int \<Rightarrow> int \<Rightarrow> 'a Network_scheme \<Rightarrow> (error + NodePtr) \<times> 'a Network_scheme" where
  "create_group_node t l net = create_block_node t l net"

text \<open>
  Modelled from the spec: \<open>Node::get_connections_to_level\<close> and
  \<open>Node::gather_connections_to_level\<close> (Node.h is not part of the sources).  Section
  4.2, \<open>neighbors_at_level\<close>: for each neighbour of the node, walk the parent chain up
  to the level and yield that ancestor, with multiplicity;
  \<open>edge_counts_to_level\<close> is the histogram of that sequence.  SBM.cpp asks for the
  node's own level too (line 19), where each neighbour is its own ancestor.  A
  parent chain that ends below the level has no ancestor to yield.
\<close>

fun parent_at_level :: "nat \<Rightarrow> Node list \<Rightarrow> NodePtr \<Rightarrow> int \<Rightarrow> error + NodePtr" where
  "parent_at_level 0 h a l = (if level (h ! a) = l then Inr a else Inl InvalidLevel)"
| "parent_at_level (Suc fuel) h a l =
     (if level (h ! a) = l then Inr a
      else (case parent (h ! a) of
              None \<Rightarrow> Inl InvalidLevel
            | Some p \<Rightarrow> parent_at_level fuel h p l))"

fun all_or_error :: "(error + 'a) list \<Rightarrow> error + 'a list" where
  "all_or_error [] = Inr []"
| "all_or_error (Inl e # rs) = Inl e"
| "all_or_error (Inr x # rs) = (case all_or_error rs of Inl e \<Rightarrow> Inl e | Inr xs \<Rightarrow> Inr (x # xs))"

definition get_connections_to_level :: "Node list \<Rightarrow> NodePtr \<Rightarrow> int \<Rightarrow> error + NodePtr list" where
  "get_connections_to_level h n l =
     all_or_error (map (\<lambda>c. parent_at_level (length h) h c l) (connections (h ! n)))"

definition gather_connections_to_level ::
  "Node list \<Rightarrow> NodePtr \<Rightarrow> int \<Rightarrow> error + NodePtr edge_counts" where
  "gather_connections_to_level h n l =
     (case get_connections_to_level h n l of
        Inl e \<Rightarrow> Inl e
      | Inr cs \<Rightarrow> Inr (fold (\<lambda>c m. AList.update c (count_at m c + 1) m) cs []))"

text \<open>
  \<open>SBM::propose_move\<close> (lines 6--33).  \<open>rand_neighbor->parent->degree\<close> on a neighbour
  without parent dereferences a null pointer.
\<close>

definition propose_move :: "NodePtr \<Rightarrow> SBM \<Rightarrow> (error + NodePtr) \<times> SBM" where
  "propose_move node sbm =
     (let h = heap sbm;
          group_level = level (h ! node) + 1
      in case get_nodes_of_type_at_level (type (h ! node)) group_level sbm of
           Inl e \<Rightarrow> (Inl e, sbm)
         | Inr potential_groups \<Rightarrow>
        (case get_connections_to_level h node (level (h ! node)) of
           Inl e \<Rightarrow> (Inl e, sbm)
         | Inr own_level_connections \<Rightarrow>
        (case sample own_level_connections (sampler sbm) of
           (Inl e, s1) \<Rightarrow> (Inl e, sbm\<lparr> sampler := s1 \<rparr>)
         | (Inr rand_neighbor, s1) \<Rightarrow>
        (case parent (h ! rand_neighbor) of
           None \<Rightarrow> (Inl Undefined, sbm\<lparr> sampler := s1 \<rparr>)
         | Some neighbor_group \<Rightarrow>
             (let neighbor_group_degree = degree (h ! neighbor_group);
                  ergo_amnt = EPS sbm * real (length potential_groups);
                  prob_of_random_group = ergo_amnt / (of_int neighbor_group_degree + ergo_amnt);
                  (u, s2) = draw_unif s1
              in if u < prob_of_random_group
                 then (case sample potential_groups s2 of (r, s3) \<Rightarrow> (r, sbm\<lparr> sampler := s3 \<rparr>))
                 else (case get_connections_to_level h rand_neighbor group_level of
                         Inl e \<Rightarrow> (Inl e, sbm\<lparr> sampler := s2 \<rparr>)
                       | Inr cs \<Rightarrow>
                           (case sample cs s2 of (r, s3) \<Rightarrow> (r, sbm\<lparr> sampler := s3 \<rparr>))))))))"

text \<open>
  \<open>SBM::make_proposal_decision\<close> on the nodes of the engine: the degrees and the
  three histograms are read off the heap and handed to the function above.
\<close>

definition make_proposal_decision_of :: "NodePtr \<Rightarrow> NodePtr \<Rightarrow> SBM \<Rightarrow> error + Proposal_Res" where
  "make_proposal_decision_of node new_group sbm =
     (let h = heap sbm;
          group_level = level (h ! node) + 1
      in case parent (h ! node) of
           None \<Rightarrow> Inl Undefined
         | Some old_group \<Rightarrow>
        (case gather_connections_to_level h node group_level of
           Inl e \<Rightarrow> Inl e
         | Inr node_edges \<Rightarrow>
        (case gather_connections_to_level h new_group group_level of
           Inl e \<Rightarrow> Inl e
         | Inr new_group_edges \<Rightarrow>
        (case gather_connections_to_level h old_group group_level of
           Inl e \<Rightarrow> Inl e
         | Inr old_group_edges \<Rightarrow>
             Inr (make_proposal_decision (EPS sbm) (BETA sbm) (\<lambda>p. degree (h ! p))
                    (degree (h ! node)) (degree (h ! old_group)) (degree (h ! new_group))
                    node_edges new_group_edges old_group_edges)))))"

text \<open>\<open>SBM::merge_groups\<close> (lines 319--329).\<close>

definition merge_groups :: "NodePtr \<Rightarrow> NodePtr \<Rightarrow> Node list \<Rightarrow> Node list" where
  "merge_groups group_a group_b h =
     (let children_to_move = children (h ! group_b)
      in fold (\<lambda>member_node h'. set_parent member_node group_a h') children_to_move h)"

text \<open>
  \<open>SBM::mcmc_sweep\<close> (lines 161--232).  \<open>std::shuffle\<close> with the generator of the
  engine's sampler is the shuffle of the sampler.  The loop over the shuffled
  nodes is \<open>sweep_nodes\<close>; \<open>continue\<close> skips the rest of the body.
\<close>

record Sweep_Res =
  nodes_moved :: "string list"
  sweep_entropy_delta :: real

fun sweep_nodes ::
  "bool \<Rightarrow> int \<Rightarrow> NodePtr list \<Rightarrow> Sweep_Res \<Rightarrow> SBM \<Rightarrow> (error + Sweep_Res) \<times> SBM" where
  "sweep_nodes variable_num_groups group_level [] results sbm = (Inr results, sbm)"
| "sweep_nodes variable_num_groups group_level (curr_node # rest) results sbm =
     (case propose_move curr_node sbm of
        (Inl e, sbm1) \<Rightarrow> (Inl e, sbm1)
      | (Inr proposed_new_group, sbm1) \<Rightarrow>
     (case parent (heap sbm1 ! curr_node) of
        None \<Rightarrow> (Inl Undefined, sbm1)
      | Some curr_parent \<Rightarrow>
          if node_id (heap sbm1 ! curr_parent) = node_id (heap sbm1 ! proposed_new_group)
          then sweep_nodes variable_num_groups group_level rest results sbm1
          else
            (case make_proposal_decision_of curr_node proposed_new_group sbm1 of
               Inl e \<Rightarrow> (Inl e, sbm1)
             | Inr proposal_results \<Rightarrow>
                 (let (u, s2) = draw_unif (sampler sbm1);
                      sbm2 = sbm1\<lparr> sampler := s2 \<rparr>;
                      move_accepted = (u < prob_of_accept proposal_results);
                      sbm3 = (if move_accepted
                              then sbm2\<lparr> heap := set_parent curr_node proposed_new_group (heap sbm2) \<rparr>
                              else sbm2);
                      results1 =
                        (if move_accepted
                         then results\<lparr> nodes_moved :=
                                          nodes_moved results @ [node_id (heap sbm2 ! curr_node)],
                                        sweep_entropy_delta :=
                                          sweep_entropy_delta results + entropy_delta proposal_results \<rparr>
                         else results)
                  in if variable_num_groups
                     then (case clean_empty_groups sbm3 of
                             (Inl e, sbm4) \<Rightarrow> (Inl e, sbm4)
                           | (Inr removed, sbm4) \<Rightarrow>
                               (case create_group_node (type (heap sbm4 ! curr_node)) group_level sbm4 of
                                  (Inl e, sbm5) \<Rightarrow> (Inl e, sbm5)
                                | (Inr new_group, sbm5) \<Rightarrow>
                                    sweep_nodes variable_num_groups group_level rest results1 sbm5))
                     else sweep_nodes variable_num_groups group_level rest results1 sbm3))))"

definition mcmc_sweep :: "int \<Rightarrow> bool \<Rightarrow> SBM \<Rightarrow> (error + Sweep_Res) \<times> SBM" where
  "mcmc_sweep l variable_num_groups sbm =
     (let sbm0 = get_level l sbm;
          node_vec = map snd (level_map sbm0 l);
          (shuffled, s1) = shuffle node_vec (sampler sbm0)
      in sweep_nodes variable_num_groups (l + 1) shuffled
           \<lparr> nodes_moved = [], sweep_entropy_delta = 0 \<rparr> (sbm0\<lparr> sampler := s1 \<rparr>))"

text \<open>
  \<open>SBM::compute_entropy\<close> (lines 239--313).  \<open>lgamma(k + 1)\<close> is \<open>ln (k!)\<close>, the
  degree \<open>k\<close> of a node being a natural number.
\<close>

definition edge_entropy_of_group :: "Node list \<Rightarrow> int \<Rightarrow> NodePtr \<Rightarrow> error + real" where
  "edge_entropy_of_group h group_level group_r =
     (case gather_connections_to_level h group_r group_level of
        Inl e \<Rightarrow> Inl e
      | Inr group_r_edge_counts \<Rightarrow>
          Inr (\<Sum>(group_s, e_rs) \<leftarrow> group_r_edge_counts.
                 of_int e_rs *
                 ln (of_int e_rs / of_int (degree (h ! group_r) * degree (h ! group_s)))))"

definition compute_entropy :: "int \<Rightarrow> SBM \<Rightarrow> (error + real) \<times> SBM" where
  "compute_entropy l sbm =
     (let sbm0 = get_level l sbm;
          h = heap sbm0;
          node_degrees = map (\<lambda>(k, n). degree (h ! n)) (level_map sbm0 l);
          n_total_edges = (\<Sum>d \<leftarrow> node_degrees. of_int d) / 2;
          n_nodes_w_degree =
            fold (\<lambda>d m. AList.update d (count_at m d + 1) m) node_degrees [];
          degree_summation =
            (\<Sum>(d, c) \<leftarrow> n_nodes_w_degree. of_int c * ln (fact (nat d)));
          sbm1 = get_level (l + 1) sbm0
      in case all_or_error
                (map (\<lambda>(k, group_r). edge_entropy_of_group h (l + 1) group_r)
                   (level_map sbm1 (l + 1))) of
           Inl e \<Rightarrow> (Inl e, sbm1)
         | Inr per_group \<Rightarrow>
             (Inr (- 1 * (n_total_edges + degree_summation + sum_list per_group / 2)), sbm1))"

text \<open>
  \<open>SBM::agglomerative_merge\<close> (lines 334--490).

  The check of lines 365--371: \<open>node_type_counts[i][group_level] < 2\<close> for \<open>i\<close> from 0
  below the size of the map.  \<open>operator[]\<close> inserts a missing key with the count 0,
  which is below 2, so the loop never runs on after an insertion: the indices are
  those below the size at entry.  The result says whether the loop throws, and
  gives the counts the lookups leave.
\<close>

fun too_few_groups ::
  "int list \<Rightarrow> int \<Rightarrow> (int \<times> (int \<times> int) list) list \<Rightarrow> bool \<times> (int \<times> (int \<times> int) list) list" where
  "too_few_groups [] group_level counts = (False, counts)"
| "too_few_groups (i # rest) group_level counts =
     (let counts1 = bump_count i group_level 0 counts
      in if type_count counts1 i group_level < 2 then (True, counts1)
         else too_few_groups rest group_level counts1)"

text \<open>
  The candidates of one group (lines 380--399), and the entropy delta of each
  (lines 403--421): the triples (\<open>from_groups\<close>, \<open>to_groups\<close>, \<open>move_delta\<close>).
  \<open>*((metagroup->children).begin())\<close> on a metagroup without children is undefined.
\<close>

fun propose_moves :: "nat \<Rightarrow> NodePtr \<Rightarrow> SBM \<Rightarrow> (error + NodePtr list) \<times> SBM" where
  "propose_moves 0 curr_group sbm = (Inr [], sbm)"
| "propose_moves (Suc n) curr_group sbm =
     (case propose_move curr_group sbm of
        (Inl e, sbm1) \<Rightarrow> (Inl e, sbm1)
      | (Inr g, sbm1) \<Rightarrow>
          (case propose_moves n curr_group sbm1 of
             (Inl e, sbm2) \<Rightarrow> (Inl e, sbm2)
           | (Inr gs, sbm2) \<Rightarrow> (Inr (g # gs), sbm2)))"

fun check_metagroups ::
  "NodePtr \<Rightarrow> NodePtr list \<Rightarrow> SBM \<Rightarrow> error + (NodePtr \<times> NodePtr \<times> real) list" where
  "check_metagroups curr_group [] sbm = Inr []"
| "check_metagroups curr_group (metagroup # rest) sbm =
     (case children (heap sbm ! metagroup) of
        [] \<Rightarrow> Inl Undefined
      | merge_group # others \<Rightarrow>
          if node_id (heap sbm ! merge_group) = node_id (heap sbm ! curr_group)
          then check_metagroups curr_group rest sbm
          else
            (case make_proposal_decision_of curr_group metagroup sbm of
               Inl e \<Rightarrow> Inl e
             | Inr res \<Rightarrow>
                 (case check_metagroups curr_group rest sbm of
                    Inl e \<Rightarrow> Inl e
                  | Inr moves \<Rightarrow> Inr ((curr_group, merge_group, entropy_delta res) # moves))))"

fun find_merges ::
  "int \<Rightarrow> NodePtr list \<Rightarrow> SBM \<Rightarrow> (error + (NodePtr \<times> NodePtr \<times> real) list) \<times> SBM" where
  "find_merges meta_level [] sbm = (Inr [], sbm)"
| "find_merges meta_level (curr_group # rest) sbm =
     (case (if GREEDY sbm
            then (get_nodes_of_type_at_level (type (heap sbm ! curr_group)) meta_level sbm, sbm)
            else propose_moves (nat (N_CHECKS_PER_GROUP sbm)) curr_group sbm) of
        (Inl e, sbm1) \<Rightarrow> (Inl e, sbm1)
      | (Inr metagroups_to_search, sbm1) \<Rightarrow>
          (case check_metagroups curr_group metagroups_to_search sbm1 of
             Inl e \<Rightarrow> (Inl e, sbm1)
           | Inr moves \<Rightarrow>
               (case find_merges meta_level rest sbm1 of
                  (Inl e, sbm2) \<Rightarrow> (Inl e, sbm2)
                | (Inr later_moves, sbm2) \<Rightarrow> (Inr (moves @ later_moves), sbm2))))"

text \<open>
  \<open>std::priority_queue<std::pair<double, int>>\<close>: \<open>top\<close> is the greatest pair, pairs
  compared first by the delta and then by the index.
\<close>

definition pair_less :: "real \<times> nat \<Rightarrow> real \<times> nat \<Rightarrow> bool" where
  "pair_less a b = (fst a < fst b \<or> (fst a = fst b \<and> snd a < snd b))"

definition queue_top :: "(real \<times> nat) list \<Rightarrow> real \<times> nat" where
  "queue_top q = fold (\<lambda>y m. if pair_less m y then y else m) (tl q) (hd q)"

record Merge_Step =
  entropy :: real
  state :: Network_State_Dump
  num_groups :: int
  from_node :: "string list"
  to_node :: "string list"

text \<open>
  The loop of lines 445--481.  It is entered with both flags true, so the first
  \<open>top()\<close> is taken also from an empty queue, which is undefined.  Every round pops
  one entry; the first argument counts the entries left.
  \<open>merges_made.size() < merges_to_make\<close> compares a \<open>size_t\<close> with an \<open>int\<close>, so
  a negative request compares as a huge number.
\<close>

fun make_merges ::
  "nat \<Rightarrow> int \<Rightarrow> (NodePtr \<times> NodePtr \<times> real) list \<Rightarrow> (real \<times> nat) list \<Rightarrow> string list
     \<Rightarrow> Merge_Step \<Rightarrow> Node list \<Rightarrow> error + (Merge_Step \<times> Node list)" where
  "make_merges 0 merges_to_make moves best_moves merges_made results h = Inl Undefined"
| "make_merges (Suc left) merges_to_make moves best_moves merges_made results h =
     (if best_moves = [] then Inl Undefined
      else
        (let merge_index = snd (queue_top best_moves);
             from_group = fst (moves ! merge_index);
             to_group = fst (snd (moves ! merge_index));
             from_still_exists = (node_id (h ! from_group) \<notin> set merges_made);
             to_still_exists = (node_id (h ! to_group) \<notin> set merges_made);
             merge = (from_still_exists \<and> to_still_exists);
             merges_made1 = (if merge then merges_made @ [node_id (h ! from_group)] else merges_made);
             h1 = (if merge then merge_groups to_group from_group h else h);
             results1 =
               (if merge
                then results\<lparr> from_node := from_node results @ [node_id (h ! from_group)],
                              to_node := to_node results @ [node_id (h ! to_group)] \<rparr>
                else results);
             best_moves1 = remove1 (queue_top best_moves) best_moves;
             more_merges_needed =
               (merges_to_make < 0 \<or> int (length merges_made1) < merges_to_make);
             queue_not_empty = (best_moves1 \<noteq> [])
         in if more_merges_needed \<and> queue_not_empty
            then make_merges left merges_to_make moves best_moves1 merges_made1 results1 h1
            else Inr (results1, h1)))"

text \<open>
  \<open>default_sampler\<close> is the state of a default-constructed sampler, for the
  \<open>block_sampler\<close> that \<open>initialize_blocks\<close> constructs.
\<close>

definition agglomerative_merge ::
  "Sampler \<Rightarrow> int \<Rightarrow> int \<Rightarrow> SBM \<Rightarrow> (error + Merge_Step) \<times> SBM" where
  "agglomerative_merge default_sampler group_level merges_to_make sbm =
     (if merges_to_make = 0 then (Inl ZeroMerges, sbm)
      else
        (let meta_level = group_level + 1 in
         case give_every_node_at_level_own_group group_level default_sampler sbm of
           (Inl e, sbm1) \<Rightarrow> (Inl e, sbm1)
         | (Inr u, sbm1) \<Rightarrow>
        (let sbm2 = get_level group_level sbm1;
             all_groups = map snd (level_map sbm2 group_level)
         in case too_few_groups (map int [0 ..< length (node_type_counts sbm2)]) group_level
                   (node_type_counts sbm2) of
              (True, counts) \<Rightarrow> (Inl TooFewGroups, sbm2\<lparr> node_type_counts := counts \<rparr>)
            | (False, counts) \<Rightarrow>
        (case find_merges meta_level all_groups (sbm2\<lparr> node_type_counts := counts \<rparr>) of
           (Inl e, sbm3) \<Rightarrow> (Inl e, sbm3)
         | (Inr moves, sbm3) \<Rightarrow>
        (let best_moves = map (\<lambda>i. (snd (snd (moves ! i)), i)) [0 ..< length moves] in
         case make_merges (Suc (length best_moves)) merges_to_make moves best_moves []
                \<lparr> entropy = 0, state = \<lparr> sd_id = [], sd_level = [], sd_parent = [], sd_type = [] \<rparr>,
                  num_groups = 0, from_node = [], to_node = [] \<rparr> (heap sbm3) of
           Inl e \<Rightarrow> (Inl e, sbm3)
         | Inr (results, h) \<Rightarrow>
        (case clean_empty_groups (sbm3\<lparr> heap := h \<rparr>) of
           (Inl e, sbm4) \<Rightarrow> (Inl e, sbm4)
         | (Inr removed_groups, sbm4) \<Rightarrow>
        (case compute_entropy (group_level - 1) sbm4 of
           (Inl e, sbm5) \<Rightarrow> (Inl e, sbm5)
         | (Inr s, sbm5) \<Rightarrow> (Inr (results\<lparr> entropy := s \<rparr>), sbm5))))))))"

text \<open>
  \<open>SBM::collapse_groups\<close> (lines 496--581).

  The body of \<open>if (num_mcmc_steps != 0)\<close>, lines 555--565: the sweeps, then
  \<open>clean_empty_groups\<close> and the entropy of the new layout.  None of it is inside
  the \<open>try\<close>.
\<close>

fun run_sweeps :: "nat \<Rightarrow> int \<Rightarrow> SBM \<Rightarrow> (error + unit) \<times> SBM" where
  "run_sweeps 0 node_level sbm = (Inr (), sbm)"
| "run_sweeps (Suc j) node_level sbm =
     (case mcmc_sweep node_level False sbm of
        (Inl e, sbm1) \<Rightarrow> (Inl e, sbm1)
      | (Inr res, sbm1) \<Rightarrow> run_sweeps j node_level sbm1)"

definition equilibrate :: "int \<Rightarrow> int \<Rightarrow> Merge_Step \<Rightarrow> SBM \<Rightarrow> (error + Merge_Step) \<times> SBM" where
  "equilibrate num_mcmc_steps node_level merge_results sbm =
     (if num_mcmc_steps \<noteq> 0
      then (case run_sweeps (nat num_mcmc_steps) node_level sbm of
              (Inl e, sbm1) \<Rightarrow> (Inl e, sbm1)
            | (Inr u, sbm1) \<Rightarrow>
                (case clean_empty_groups sbm1 of
                   (Inl e, sbm2) \<Rightarrow> (Inl e, sbm2)
                 | (Inr removed, sbm2) \<Rightarrow>
                     (case compute_entropy node_level sbm2 of
                        (Inl e, sbm3) \<Rightarrow> (Inl e, sbm3)
                      | (Inr s, sbm3) \<Rightarrow> (Inr (merge_results\<lparr> entropy := s \<rparr>), sbm3))))
      else (Inr merge_results, sbm))"

text \<open>
  The loop of lines 521--578.  It need not terminate, so its result is an option:
  \<open>None\<close> is the loop that runs forever.  \<open>catch (...)\<close> at line 546 catches whatever
  \<open>agglomerative_merge\<close> throws and leaves the loop with \<open>break\<close>; undefined
  behaviour is no exception and is not caught.  The number of merges of line 524 is
  computed before the \<open>try\<close>; an undefined conversion to \<open>int\<close> there ends the run.
\<close>

partial_function (option) collapse_loop ::
  "Sampler \<Rightarrow> int \<Rightarrow> int \<Rightarrow> int \<Rightarrow> int \<Rightarrow> Merge_Step list \<Rightarrow> SBM
     \<Rightarrow> ((error + Merge_Step list) \<times> SBM) option" where
  "collapse_loop default_sampler node_level num_mcmc_steps desired_num_groups
       curr_num_groups step_results sbm =
     (if curr_num_groups > desired_num_groups then
        (case num_merges_to_make (SIGMA_r sbm) curr_num_groups desired_num_groups of
           Inl e \<Rightarrow> Some (Inl e, sbm)
         | Inr num_merges \<Rightarrow>
             (case agglomerative_merge default_sampler (node_level + 1) num_merges sbm of
                (Inl e, sbm1) \<Rightarrow>
                  (if e = Undefined then Some (Inl Undefined, sbm1)
                   else Some (Inr step_results, sbm1))
              | (Inr merge_results, sbm1) \<Rightarrow>
                  (case equilibrate num_mcmc_steps node_level merge_results sbm1 of
                     (Inl e, sbm2) \<Rightarrow> Some (Inl e, sbm2)
                   | (Inr merge_results1, sbm2) \<Rightarrow>
                       collapse_loop default_sampler node_level num_mcmc_steps
                         desired_num_groups
                         (int (length (level_map sbm2 (node_level + 1))))
                         (step_results @
                            [merge_results1\<lparr> state := Network_get_state sbm2,
                                             num_groups := curr_num_groups \<rparr>])
                         sbm2)))
      else Some (Inr step_results, sbm))"

definition collapse_groups ::
  "Sampler \<Rightarrow> int \<Rightarrow> int \<Rightarrow> int \<Rightarrow> SBM \<Rightarrow> ((error + Merge_Step list) \<times> SBM) option" where
  "collapse_groups default_sampler node_level num_mcmc_steps desired_num_groups sbm =
     (let group_level = node_level + 1 in
      case give_every_node_at_level_own_group node_level default_sampler sbm of
        (Inl e, sbm1) \<Rightarrow> Some (Inl e, sbm1)
      | (Inr u, sbm1) \<Rightarrow>
          (let sbm2 = get_level group_level sbm1
           in collapse_loop default_sampler node_level num_mcmc_steps desired_num_groups
                (int (length (level_map sbm2 group_level))) [] sbm2))"

section \<open>Small networks\<close>

text \<open>
  Networks built with the operations above, for the properties that are shown at a
  concrete network.  \<open>empty_Network\<close> is a \<open>Network\<close> right after construction;
  \<open>two_empty_blocks\<close> holds one node \<open>a\<close> of type 0 at level 0 and two blocks of type
  0 at level 1, made by \<open>create_block_node\<close>, neither with a child.
\<close>

definition empty_Network :: Network where
  "empty_Network = \<lparr> heap = [], nodes = [], node_type_counts = [] \<rparr>"

definition two_empty_blocks :: Network where
  "two_empty_blocks =
     snd (create_block_node 0 1
       (snd (create_block_node 0 1
         (snd (Network_add_node ''a'' 0 0 empty_Network)))))"

text \<open>
  \<open>new_SBM\<close> is an engine without nodes, with \<open>EPS = 0.1\<close>, \<open>BETA = 1.5\<close>,
  \<open>SIGMA = 2\<close>, not greedy, one candidate per group, its sampler drawing 0 for
  ever.  \<open>two_isolated_nodes\<close> holds the nodes \<open>a\<close> and \<open>b\<close> of type 0 at level 0 and
  no edge; \<open>two_singleton_blocks\<close> is that engine after every node was given its own
  block.  \<open>one_node_one_block\<close> holds a single node in a single block.
\<close>

definition new_SBM :: SBM where
  "new_SBM =
     \<lparr> heap = [], nodes = [], node_type_counts = [], sampler = sconst 0, EPS = 1 / 10,
       BETA = 3 / 2, GREEDY = False, N_CHECKS_PER_GROUP = 1, SIGMA_r = Dbl 2 \<rparr>"

definition two_isolated_nodes :: SBM where
  "two_isolated_nodes =
     snd (Network_add_node ''b'' 0 0 (snd (Network_add_node ''a'' 0 0 new_SBM)))"

definition two_singleton_blocks :: SBM where
  "two_singleton_blocks =
     snd (give_every_node_at_level_own_group 0 (sconst 0) two_isolated_nodes)"

definition one_node_one_block :: SBM where
  "one_node_one_block =
     snd (give_every_node_at_level_own_group 0 (sconst 0)
            (snd (Network_add_node ''a'' 0 0 new_SBM)))"

text \<open>
  \<open>two_singleton_blocks_meta\<close> is \<open>two_singleton_blocks\<close> after every block was given
  a metablock of its own, the first step of \<open>agglomerative_merge\<close> at level 1.
\<close>

definition two_singleton_blocks_meta :: SBM where
  "two_singleton_blocks_meta =
     snd (give_every_node_at_level_own_group 1 (sconst 0) two_singleton_blocks)"

chapter \<open>Properties\<close>

section \<open>Number of merges per collapse step\<close>

subsection \<open>Rounding\<close>

lemma bitlen_numeral:
  "bitlen (numeral n) = bitlen (numeral n div 2) + 1"
  by (subst compute_bitlen) simp

lemma bitlen_one: "bitlen 1 = 1"
  by (subst compute_bitlen) simp

lemmas double_eval = double_of_int_def double_sub_def double_div_def
  is_inf_def is_zero_def trunc_to_int_def signed_zero_def signed_inf_def
  round_double_def ilog2_def two_pow_def round_half_even_def Let_def
  bitlen_numeral bitlen_one

lemma two_pow_powi: "two_pow e = 2 powi e"
  by (simp add: two_pow_def power_int_def inverse_eq_divide power_one_over)

lemma two_pow_less: "two_pow a < two_pow b \<longleftrightarrow> a < b"
proof
  assume "a < b"
  then show "two_pow a < two_pow b"
    unfolding two_pow_powi by (intro power_int_strict_increasing) simp_all
next
  assume l: "two_pow a < two_pow b"
  show "a < b"
  proof (rule ccontr)
    assume "\<not> a < b"
    then have "b \<le> a" by simp
    then have "two_pow b \<le> two_pow a"
      unfolding two_pow_powi by (intro power_int_increasing) simp_all
    with l show False by simp
  qed
qed

text \<open>\<open>ilog2 x\<close> is not above the binary exponent of \<open>x\<close>.\<close>

lemma ilog2_le:
  assumes "0 < x"
  shows "two_pow (ilog2 x) \<le> x"
proof (cases "1 \<le> x")
  case True
  then have f: "0 < \<lfloor>x\<rfloor>" by simp
  have "two_pow (ilog2 x) = 2 ^ nat (bitlen \<lfloor>x\<rfloor> - 1)"
    using True f bitlen_bounds [OF f] by (simp add: ilog2_def two_pow_def bitlen_alt_def)
  also have "\<dots> \<le> of_int \<lfloor>x\<rfloor>"
    using bitlen_bounds [OF f] by (metis of_int_le_iff of_int_numeral of_int_power)
  also have "\<dots> \<le> x" by simp
  finally show ?thesis .
next
  case False
  define c where "c = \<lceil>1 / x\<rceil>"
  define L where "L = bitlen (c - 1)"
  have "1 < 1 / x" using False assms by simp
  then have c2: "2 \<le> c" unfolding c_def by linarith
  then have c1: "0 < c - 1" by simp
  have Lpos: "0 \<le> L" unfolding L_def by (rule bitlen_nonneg)
  have "c - 1 < 2 ^ nat L" using bitlen_bounds [OF c1] by (simp add: L_def)
  then have "c \<le> 2 ^ nat L" by simp
  then have "(of_int c :: real) \<le> 2 ^ nat L"
    by (metis of_int_le_iff of_int_numeral of_int_power)
  moreover have "1 / x \<le> of_int c" unfolding c_def by simp
  ultimately have "1 / x \<le> 2 ^ nat L" by linarith
  then have "1 / 2 ^ nat L \<le> x"
    using assms by (simp add: field_simps)
  moreover have "two_pow (ilog2 x) = 1 / 2 ^ nat L"
    using False Lpos by (simp add: ilog2_def two_pow_def c_def L_def)
  ultimately show ?thesis by simp
qed

lemma ilog2_less:
  assumes "0 < x" and "x < 2 ^ n"
  shows "ilog2 x < int n"
proof -
  have "two_pow (ilog2 x) < two_pow (int n)"
    using ilog2_le [OF assms(1)] assms(2) by (simp add: two_pow_def)
  then show ?thesis by (simp only: two_pow_less)
qed

lemma two_pow_nonpos:
  assumes "e \<le> 0"
  shows "two_pow e = 1 / 2 ^ nat (- e)"
  using assms by (cases "e = 0") (simp_all add: two_pow_def)

text \<open>Rounding to the nearest integer does not cross an integer.\<close>

lemma round_half_even_ge:
  assumes "of_int k \<le> y"
  shows "k \<le> round_half_even y"
proof -
  have "k \<le> \<lfloor>y\<rfloor>" using assms by (simp add: le_floor_iff)
  then show ?thesis by (simp add: round_half_even_def Let_def)
qed

lemma round_half_even_le:
  assumes "y \<le> of_int k"
  shows "round_half_even y \<le> k"
proof (cases "y = of_int k")
  case True
  then show ?thesis by (simp add: round_half_even_def Let_def)
next
  case False
  then have "y < of_int k" using assms by simp
  then have "\<lfloor>y\<rfloor> < k" by (simp add: floor_less_iff)
  then show ?thesis by (simp add: round_half_even_def Let_def)
qed

lemma round_half_even_of_int [simp]: "round_half_even (of_int k) = k"
  by (simp add: round_half_even_def)

text \<open>
  Below \<open>2^53\<close> the doubles are the multiples of a power of two that is at most 1, and
  rounding is rounding to the nearest of these multiples.
\<close>

lemma round_double_pos:
  assumes "0 < x" and "x < 2 ^ 53"
  shows "round_double x =
           Dbl (of_int (round_half_even (x * 2 ^ nat (- max (ilog2 x - 52) (- 1074))))
                  / 2 ^ nat (- max (ilog2 x - 52) (- 1074)))"
proof -
  define e where "e = max (ilog2 x - 52) (- 1074)"
  define n where "n = nat (- e)"
  define m where "m = round_half_even (x * 2 ^ n)"
  have "ilog2 x < 53" using ilog2_less [OF assms] by simp
  then have "e \<le> 0" by (simp add: e_def)
  then have tp: "two_pow e = 1 / 2 ^ n" unfolding n_def by (rule two_pow_nonpos)
  have up: "x * 2 ^ n \<le> of_int (2 ^ 53 * 2 ^ n)" using assms(2) by simp
  have lo: "of_int 0 \<le> x * 2 ^ n" using assms(1) by simp
  have m_hi: "m \<le> 2 ^ 53 * 2 ^ n" unfolding m_def by (rule round_half_even_le [OF up])
  have m_lo: "0 \<le> m" unfolding m_def by (rule round_half_even_ge [OF lo])
  have "(of_int m :: real) \<le> of_int (2 ^ 53 * 2 ^ n)" using m_hi by (simp only: of_int_le_iff)
  then have y_hi: "(of_int m :: real) / 2 ^ n \<le> 2 ^ 53" by (simp add: field_simps)
  have y_lo: "0 \<le> (of_int m :: real) / 2 ^ n" using m_lo by simp
  have "(2::real) ^ 53 < 2 ^ 1024" by (rule power_strict_increasing) simp_all
  then have no: "\<not> two_pow 1024 \<le> \<bar>(of_int m :: real) / 2 ^ n\<bar>"
    using y_hi y_lo by (simp add: two_pow_def)
  have "round_double x = Dbl (of_int m / 2 ^ n)"
    using assms(1) no
    by (simp add: round_double_def Let_def e_def [symmetric] tp m_def [symmetric])
  then show ?thesis by (simp add: m_def n_def e_def)
qed

text \<open>Rounding does not cross an integer below \<open>2^53\<close>: the integers there are doubles.\<close>

lemma round_double_between:
  assumes "0 < x" and "of_int j \<le> x" and "x \<le> of_int j + 1" and "j + 1 < 2 ^ 53"
  shows "\<exists>v. round_double x = Dbl v \<and> of_int j \<le> v \<and> v \<le> of_int j + 1"
proof -
  define n where "n = nat (- max (ilog2 x - 52) (- 1074))"
  define m where "m = round_half_even (x * 2 ^ n)"
  have "(of_int (j + 1) :: real) < of_int (2 ^ 53)" using assms(4) by (simp only: of_int_less_iff)
  then have x53: "x < 2 ^ 53" using assms(3) by simp
  have r: "round_double x = Dbl (of_int m / 2 ^ n)"
    using round_double_pos [OF assms(1) x53] by (simp add: m_def n_def)
  have "of_int (j * 2 ^ n) \<le> x * 2 ^ n" using assms(2) by simp
  then have m_lo: "j * 2 ^ n \<le> m" unfolding m_def by (rule round_half_even_ge)
  have "x * 2 ^ n \<le> of_int ((j + 1) * 2 ^ n)" using assms(3) by simp
  then have m_hi: "m \<le> (j + 1) * 2 ^ n" unfolding m_def by (rule round_half_even_le)
  have "(of_int (j * 2 ^ n) :: real) \<le> of_int m" using m_lo by (simp only: of_int_le_iff)
  then have v_lo: "(of_int j :: real) \<le> of_int m / 2 ^ n" by (simp add: field_simps)
  have "(of_int m :: real) \<le> of_int ((j + 1) * 2 ^ n)" using m_hi by (simp only: of_int_le_iff)
  then have v_hi: "(of_int m :: real) / 2 ^ n \<le> of_int j + 1" by (simp add: field_simps)
  show ?thesis using r v_lo v_hi by blast
qed

text \<open>A positive number below \<open>2^31\<close> with at most 21 binary places is a double.\<close>

lemma round_double_exact:
  assumes "0 < x" and "x < 2 ^ 31" and "of_int k = x * 2 ^ 21"
  shows "round_double x = Dbl x"
proof -
  define e where "e = max (ilog2 x - 52) (- 1074)"
  define n where "n = nat (- e)"
  have "(2::real) ^ 31 < 2 ^ 53" by (rule power_strict_increasing) simp_all
  then have x53: "x < 2 ^ 53" using assms(2) by simp
  have "ilog2 x < 31" using ilog2_less [OF assms(1,2)] by simp
  then have "e \<le> - 22" by (simp add: e_def)
  then have n21: "21 \<le> n" by (simp add: n_def)
  then have "(2::real) ^ n = 2 ^ 21 * 2 ^ (n - 21)"
    by (metis le_add_diff_inverse power_add)
  then have xn: "x * 2 ^ n = of_int (k * 2 ^ (n - 21))"
    using assms(3) by simp
  then have "round_half_even (x * 2 ^ n) = k * 2 ^ (n - 21)"
    by (simp only: round_half_even_of_int)
  moreover have "(of_int (k * 2 ^ (n - 21)) :: real) / 2 ^ n = x"
    using xn by (simp add: field_simps)
  ultimately show ?thesis
    using round_double_pos [OF assms(1) x53] by (simp add: n_def e_def)
qed

lemma double_of_int_exact:
  assumes "0 \<le> B" and "B < 2147483648"
  shows "double_of_int B = Dbl (of_int B)"
proof (cases "B = 0")
  case True
  then show ?thesis by (simp add: double_of_int_def round_double_def)
next
  case False
  then have "0 < (of_int B :: real)" using assms(1) by simp
  moreover have "(of_int B :: real) < 2 ^ 31"
    using assms(2) by (simp add: of_int_less_numeral_iff [symmetric] del: of_int_less_numeral_iff)
  moreover have "of_int (B * 2 ^ 21) = (of_int B :: real) * 2 ^ 21" by simp
  ultimately show ?thesis unfolding double_of_int_def by (rule round_double_exact)
qed

lemma double_to_int_between:
  assumes "of_int j \<le> v" and "v \<le> of_int j + 1" and "0 \<le> j" and "j < 2147483647"
  shows "double_to_int (Dbl v) = Inr j \<or> double_to_int (Dbl v) = Inr (j + 1)"
proof -
  have v0: "0 \<le> v" using assms(1,3) by (meson of_int_0_le_iff order_trans)
  have "j \<le> \<lfloor>v\<rfloor>" using assms(1) by (simp add: le_floor_iff)
  moreover have "\<lfloor>v\<rfloor> \<le> j + 1"
    using assms(2) by (metis floor_mono floor_of_int of_int_1 of_int_add)
  ultimately have f: "\<lfloor>v\<rfloor> = j \<or> \<lfloor>v\<rfloor> = j + 1" by linarith
  have t: "trunc_to_int v = \<lfloor>v\<rfloor>" using v0 by (simp add: trunc_to_int_def)
  have "- 2147483648 \<le> trunc_to_int v" "trunc_to_int v \<le> 2147483647"
    using f assms(3,4) unfolding t by linarith+
  then have "double_to_int (Dbl v) = Inr \<lfloor>v\<rfloor>"
    by (simp only: double_to_int.simps t simp_thms if_True)
  then show ?thesis using f by auto
qed

subsection \<open>The difference of line 524\<close>

text \<open>
  With \<open>SIGMA > 1\<close> and a count \<open>B\<close> that is an \<open>int\<close>, \<open>int(B - B / SIGMA)\<close> is
  \<open>B - ceiling(B / SIGMA)\<close> or one more: the quotient lies between two neighbouring
  integers, and neither of the two roundings takes it across one of them.
\<close>

lemma schedule_difference:
  assumes "1 < s" and "0 \<le> B" and "B < 2147483648"
  shows "double_to_int (double_sub (double_of_int B) (double_div (double_of_int B) (Dbl s)))
           = Inr (B - \<lceil>of_int B / s\<rceil>)
       \<or> double_to_int (double_sub (double_of_int B) (double_div (double_of_int B) (Dbl s)))
           = Inr (B - \<lceil>of_int B / s\<rceil> + 1)"
proof -
  define x where "x = of_int B / s"
  define n where "n = \<lceil>x\<rceil>"
  have s0: "0 < s" using assms(1) by simp
  have x0: "0 \<le> x" using assms(2) s0 by (simp add: x_def)
  have xB: "x \<le> of_int B"
    using assms(1,2) s0 by (simp add: x_def divide_le_eq mult_le_cancel_left1)
  have n_hi: "x \<le> of_int n" by (simp add: n_def)
  have n_lo: "of_int (n - 1) \<le> x" unfolding n_def by linarith
  have n0: "0 \<le> n" using x0 by (simp add: n_def)
  have nB: "n \<le> B" using xB by (simp add: n_def ceiling_le_iff)
  have c: "double_of_int B = Dbl (of_int B)" using assms(2,3) by (rule double_of_int_exact)
  have "\<exists>q. double_div (Dbl (of_int B)) (Dbl s) = Dbl q \<and> of_int (n - 1) \<le> q \<and> q \<le> of_int n
          \<and> 0 \<le> q"
  proof (cases "B = 0")
    case True
    then have "n = 0" by (simp add: n_def x_def)
    then show ?thesis using True s0
      by (simp add: double_div_def is_zero_def is_inf_def signed_zero_def)
  next
    case False
    then have xpos: "0 < x" using assms(2) s0 by (simp add: x_def)
    then have n1: "1 \<le> n" by (simp add: n_def)
    have d: "double_div (Dbl (of_int B)) (Dbl s) = round_double x"
      using False s0 by (simp add: double_div_def is_zero_def is_inf_def x_def)
    have "n - 1 + 1 < 2 ^ 53" using nB assms(3) by simp
    moreover have "x \<le> of_int (n - 1) + 1" using n_hi by simp
    ultimately obtain v where "round_double x = Dbl v" "of_int (n - 1) \<le> v"
      "v \<le> of_int (n - 1) + 1"
      using round_double_between [OF xpos n_lo] by blast
    moreover have "(0::real) \<le> of_int (n - 1)" using n1 by simp
    ultimately show ?thesis using d by auto
  qed
  then obtain q where q: "double_div (Dbl (of_int B)) (Dbl s) = Dbl q"
    and q_lo: "of_int (n - 1) \<le> q" and q_hi: "q \<le> of_int n" and q0: "0 \<le> q" by blast
  have d_lo: "of_int (B - n) \<le> of_int B - q" using q_hi by simp
  have d_hi: "of_int B - q \<le> of_int (B - n) + 1" using q_lo by simp
  have "\<exists>v. double_sub (Dbl (of_int B)) (Dbl q) = Dbl v \<and> of_int (B - n) \<le> v
          \<and> v \<le> of_int (B - n) + 1"
  proof (cases "of_int B - q = 0")
    case True
    then show ?thesis using d_lo d_hi
      by (simp add: double_sub_def is_inf_def)
  next
    case False
    have "(0::real) \<le> of_int (B - n)" using nB by simp
    then have pos: "0 < of_int B - q" using d_lo False by linarith
    have "B - n + 1 < 2 ^ 53" using n0 assms(3) by simp
    then obtain v where "round_double (of_int B - q) = Dbl v" "of_int (B - n) \<le> v"
      "v \<le> of_int (B - n) + 1"
      using round_double_between [OF pos d_lo d_hi] by blast
    then show ?thesis using False by (simp add: double_sub_def is_inf_def)
  qed
  then obtain v where v: "double_sub (Dbl (of_int B)) (Dbl q) = Dbl v"
    and v_lo: "of_int (B - n) \<le> v" and v_hi: "v \<le> of_int (B - n) + 1" by blast
  have "0 \<le> B - n" using nB by simp
  moreover have "B = 0 \<or> 1 \<le> n"
  proof (cases "B = 0")
    case False
    then have "0 < x" using assms(2) s0 by (simp add: x_def)
    then show ?thesis by (simp add: n_def)
  qed simp
  then have "B - n < 2147483647" using n0 assms(2,3) by linarith
  ultimately have "double_to_int (Dbl v) = Inr (B - n) \<or> double_to_int (Dbl v) = Inr (B - n + 1)"
    using double_to_int_between [OF v_lo v_hi] by blast
  then show ?thesis by (simp add: c q v n_def x_def)
qed

text \<open>
  When \<open>B / SIGMA\<close> has at most 21 binary places, the quotient and the difference are
  doubles, nothing is rounded, and \<open>int(B - B / SIGMA)\<close> is \<open>B - ceiling(B / SIGMA)\<close>.
\<close>

lemma schedule_difference_exact:
  assumes "1 < s" and "0 \<le> B" and "B < 2147483648"
    and "of_int \<lfloor>of_int B / s * 2 ^ 21\<rfloor> = of_int B / s * 2 ^ 21"
  shows "double_to_int (double_sub (double_of_int B) (double_div (double_of_int B) (Dbl s)))
           = Inr (B - \<lceil>of_int B / s\<rceil>)"
proof -
  define x where "x = of_int B / s"
  define k where "k = \<lfloor>x * 2 ^ 21\<rfloor>"
  have s0: "0 < s" using assms(1) by simp
  have x0: "0 \<le> x" using assms(2) s0 by (simp add: x_def)
  have xB: "x \<le> of_int B"
    using assms(1,2) s0 by (simp add: x_def divide_le_eq mult_le_cancel_left1)
  have k: "of_int k = x * 2 ^ 21" using assms(4) by (simp add: k_def x_def)
  have B31: "(of_int B :: real) < 2 ^ 31"
    using assms(3) by (simp add: of_int_less_numeral_iff [symmetric] del: of_int_less_numeral_iff)
  have c: "double_of_int B = Dbl (of_int B)" using assms(2,3) by (rule double_of_int_exact)
  have t: "trunc_to_int (of_int B - x) = B - \<lceil>x\<rceil>"
  proof -
    have "0 \<le> of_int B - x" using xB by simp
    then have "trunc_to_int (of_int B - x) = \<lfloor>of_int B + (- x)\<rfloor>"
      by (simp add: trunc_to_int_def)
    also have "\<dots> = B + \<lfloor>- x\<rfloor>" by (simp only: int_add_floor)
    also have "\<dots> = B - \<lceil>x\<rceil>" by (simp add: floor_minus)
    finally show ?thesis .
  qed
  have rng: "0 \<le> B - \<lceil>x\<rceil>" "B - \<lceil>x\<rceil> \<le> 2147483647"
    using xB x0 assms(3) by (simp_all add: ceiling_le_iff) linarith
  show ?thesis
  proof (cases "B = 0")
    case True
    have "double_of_int 0 = Dbl 0" by (simp add: double_of_int_def round_double_def)
    then show ?thesis using True s0
      by (simp add: double_div_def double_sub_def is_zero_def is_inf_def signed_zero_def
            trunc_to_int_def)
  next
    case False
    then have Bpos: "0 < B" using assms(2) by simp
    then have xpos: "0 < x" using s0 by (simp add: x_def)
    have "x < of_int B" using assms(1) Bpos s0 by (simp add: x_def divide_less_eq)
    then have dpos: "0 < of_int B - x" by simp
    have x31: "x < 2 ^ 31" using xB B31 by simp
    have q: "double_div (Dbl (of_int B)) (Dbl s) = Dbl x"
      using False s0 round_double_exact [OF xpos x31 k]
      by (simp add: double_div_def is_zero_def is_inf_def x_def)
    have "of_int (B * 2 ^ 21 - k) = (of_int B - x) * 2 ^ 21" using k by (simp add: algebra_simps)
    moreover have "of_int B - x < 2 ^ 31" using x0 B31 by simp
    ultimately have "round_double (of_int B - x) = Dbl (of_int B - x)"
      using round_double_exact [OF dpos] by blast
    then have v: "double_sub (Dbl (of_int B)) (Dbl x) = Dbl (of_int B - x)"
      using dpos by (simp add: double_sub_def is_inf_def)
    show ?thesis using rng t by (simp add: c q v x_def [symmetric])
  qed
qed

text \<open>
  The schedule with \<open>SIGMA\<close> the double nearest to 1.4, a number that is not a double:
  21 blocks give 5 merges, which is \<open>21 - ceiling(21 / SIGMA)\<close>, and 7 blocks give 2,
  which is one more than \<open>7 - ceiling(7 / SIGMA)\<close>.
\<close>

lemma num_merges_at_sigma_1_4:
  "round_double (7 / 5) = Dbl (3152519739159347 / 2251799813685248)"
  "num_merges_to_make (round_double (7 / 5)) 21 1 = Inr 5"
  "num_merges_to_make (round_double (7 / 5)) 7 1 = Inr 2"
  by (simp_all add: num_merges_to_make_def double_eval)

lemma ceiling_at_sigma_1_4:
  "21 - \<lceil>21 / (3152519739159347 / 2251799813685248 :: real)\<rceil> = 5"
  "7 - \<lceil>7 / (3152519739159347 / 2251799813685248 :: real)\<rceil> = 1"
  by (simp_all add: ceiling_eq_iff)

text \<open>
  Claim C7, as amended.  In an iteration of the collapse loop with \<open>B\<close> blocks,
  \<open>B\<close> above the target and \<open>SIGMA\<close> a double above 1, the number of merges
  requested is \<open>max(1, int(B - B / SIGMA))\<close>, the quotient and the difference rounded
  as doubles and the difference truncated: this is \<open>max(1, B - ceiling(B / SIGMA))\<close>
  or \<open>max(1, B - ceiling(B / SIGMA) + 1)\<close>, and it is the former whenever \<open>B / SIGMA\<close>
  has at most 21 binary places (nothing is rounded then).  It is reduced to
  \<open>B - desired\<close> when it would take the block count below the target; so the
  conversion to \<open>int\<close> is defined, the number is at least 1 and it leaves at least
  the desired number of blocks.
\<close>

theorem num_merges_to_make_truncates:
  assumes "1 < s" and "0 \<le> B" and "B < 2147483648" and "desired < B"
  shows "(num_merges_to_make (Dbl s) B desired
            = Inr (min (max 1 (B - \<lceil>of_int B / s\<rceil>)) (B - desired))
          \<or> num_merges_to_make (Dbl s) B desired
            = Inr (min (max 1 (B - \<lceil>of_int B / s\<rceil> + 1)) (B - desired)))
       \<and> (of_int \<lfloor>of_int B / s * 2 ^ 21\<rfloor> = of_int B / s * 2 ^ 21 \<longrightarrow>
            num_merges_to_make (Dbl s) B desired
              = Inr (min (max 1 (B - \<lceil>of_int B / s\<rceil>)) (B - desired)))
       \<and> (\<exists>m. num_merges_to_make (Dbl s) B desired = Inr m \<and> 1 \<le> m \<and> desired \<le> B - m)"
proof -
  have gen: "num_merges_to_make (Dbl s) B desired = Inr (min (max 1 r) (B - desired))"
    if "double_to_int (double_sub (double_of_int B) (double_div (double_of_int B) (Dbl s)))
          = Inr r"
    for r
    using that assms(4) by (simp add: num_merges_to_make_def Let_def min_def max_def)
  have bounds: "1 \<le> min (max 1 r) (B - desired) \<and> desired \<le> B - min (max 1 r) (B - desired)"
    for r
    using assms(4) by (simp add: min_def max_def)
  have c1: "num_merges_to_make (Dbl s) B desired
            = Inr (min (max 1 (B - \<lceil>of_int B / s\<rceil>)) (B - desired))
          \<or> num_merges_to_make (Dbl s) B desired
            = Inr (min (max 1 (B - \<lceil>of_int B / s\<rceil> + 1)) (B - desired))"
    using schedule_difference [OF assms(1,2,3)] gen by blast
  have c2: "of_int \<lfloor>of_int B / s * 2 ^ 21\<rfloor> = of_int B / s * 2 ^ 21 \<longrightarrow>
            num_merges_to_make (Dbl s) B desired
              = Inr (min (max 1 (B - \<lceil>of_int B / s\<rceil>)) (B - desired))"
    using schedule_difference_exact [OF assms(1,2,3)] gen by blast
  have c3: "\<exists>m. num_merges_to_make (Dbl s) B desired = Inr m \<and> 1 \<le> m \<and> desired \<le> B - m"
    using c1 bounds by metis
  show ?thesis using c1 c2 c3 by blast
qed

text \<open>The theorem at 5 blocks, \<open>SIGMA = 2\<close> and the target 1: 2 merges.\<close>

theorem num_merges_to_make_truncates_witness:
  "num_merges_to_make (Dbl 2) 5 1 = Inr 2"
proof -
  have "\<lceil>(5::real) / 2\<rceil> = 3" by (simp add: ceiling_eq_iff)
  then show ?thesis using num_merges_to_make_truncates [of 2 5 1] by simp
qed

text \<open>
  The claim as stated fails: with 5 blocks, \<open>SIGMA = 2\<close> and the target 1 the code
  asks for \<open>int(5 - 2.5) = 2\<close> merges, the formula of the claim gives
  \<open>5 - floor(2.5) = 3\<close>.
\<close>

theorem num_merges_to_make_not_floor:
  "num_merges_to_make (Dbl 2) 5 1 = Inr 2 \<and> num_merges_spec 2 5 1 = 3"
  by (simp add: num_merges_to_make_def double_eval num_merges_spec_def)

section \<open>The decision on a proposed move\<close>

subsection \<open>The histograms under \<open>operator[]\<close>\<close>

lemma count_at_touch [simp]: "count_at (touch m k) t = count_at m t"
  by (auto simp: count_at_def touch_def split: option.splits if_splits)

lemma touch_present: "k \<in> fst ` set m \<Longrightarrow> touch m k = m"
  by (auto simp: touch_def map_of_eq_None_iff split: option.splits)

lemma count_at_nonneg:
  "\<forall>(t, e) \<in> set m. 0 \<le> e \<Longrightarrow> 0 \<le> count_at m k"
  by (auto simp: count_at_def split: option.splits dest!: map_of_SomeD)

lemma old_group_loop_count_at [simp]:
  "count_at (fst (old_group_loop degree_of d_pre d_post old_group_edges node_edges acc)) t
     = count_at node_edges t"
proof (induction old_group_edges arbitrary: node_edges acc)
  case Nil
  then show ?case by simp
next
  case (Cons p rest)
  obtain k e where p: "p = (k, e)" by (cases p)
  show ?case unfolding p old_group_loop.simps Cons.IH by simp
qed

lemma old_group_loop_same_keys:
  "fst ` set old_group_edges \<subseteq> fst ` set node_edges \<Longrightarrow>
   fst (old_group_loop degree_of d_pre d_post old_group_edges node_edges acc) = node_edges"
proof (induction old_group_edges arbitrary: acc)
  case Nil
  then show ?case by simp
next
  case (Cons p rest)
  obtain k e where p: "p = (k, e)" by (cases p)
  from Cons.prems p have k: "touch node_edges k = node_edges" by (auto intro: touch_present)
  from Cons.prems have "fst ` set rest \<subseteq> fst ` set node_edges" by auto
  from Cons.IH [OF this] show ?case by (simp add: p k)
qed

lemma new_group_loop_same_keys:
  "fst ` set new_group_edges \<subseteq> fst ` set node_edges \<Longrightarrow>
   fst (new_group_loop degree_of d_pre d_post new_group_edges node_edges acc) = node_edges"
proof (induction new_group_edges arbitrary: acc)
  case Nil
  then show ?case by simp
next
  case (Cons p rest)
  obtain k e where p: "p = (k, e)" by (cases p)
  from Cons.prems p have k: "touch node_edges k = node_edges" by (auto intro: touch_present)
  from Cons.prems have "fst ` set rest \<subseteq> fst ` set node_edges" by auto
  from Cons.IH [OF this] show ?case by (simp add: p k)
qed

subsection \<open>The entropy accumulators\<close>

lemma process_group_pair_term:
  "0 \<le> e \<Longrightarrow> 0 \<le> e + n \<Longrightarrow>
   process_group_pair (of_int d_t) (of_int e) (of_int n) (of_int d_pre) (of_int d_post) acc =
     (fst acc + edge_entropy_term e d_pre d_t, snd acc + edge_entropy_term (e + n) d_post d_t)"
  by (auto simp: process_group_pair_def edge_entropy_term_def Let_def)

lemma old_group_loop_sum:
  "\<forall>(t, e) \<in> set old_group_edges. 0 \<le> e \<and> count_at node_edges t \<le> e \<Longrightarrow>
   snd (old_group_loop degree_of (of_int d_pre) (of_int d_post) old_group_edges node_edges acc) =
     (fst acc + (\<Sum>(t, e) \<leftarrow> old_group_edges. edge_entropy_term e d_pre (degree_of t)),
      snd acc + (\<Sum>(t, e) \<leftarrow> old_group_edges.
                   edge_entropy_term (e - count_at node_edges t) d_post (degree_of t)))"
proof (induction old_group_edges arbitrary: node_edges acc)
  case Nil
  then show ?case by simp
next
  case (Cons p rest)
  obtain t e where p: "p = (t, e)" by (cases p)
  from Cons.prems p have e: "0 \<le> e" "0 \<le> e + (- count_at node_edges t)" by auto
  have rest: "\<forall>(t', e') \<in> set rest. 0 \<le> e' \<and> count_at (touch node_edges t) t' \<le> e'"
    using Cons.prems by auto
  show ?case
    using Cons.IH [OF rest] process_group_pair_term [OF e]
    by (simp add: p add.assoc)
qed

lemma new_group_loop_sum:
  "\<forall>(t, e) \<in> set new_group_edges. 0 \<le> e \<and> 0 \<le> e + count_at node_edges t \<Longrightarrow>
   snd (new_group_loop degree_of (of_int d_pre) (of_int d_post) new_group_edges node_edges acc) =
     (fst acc + (\<Sum>(t, e) \<leftarrow> new_group_edges. edge_entropy_term e d_pre (degree_of t)),
      snd acc + (\<Sum>(t, e) \<leftarrow> new_group_edges.
                   edge_entropy_term (e + count_at node_edges t) d_post (degree_of t)))"
proof (induction new_group_edges arbitrary: node_edges acc)
  case Nil
  then show ?case by simp
next
  case (Cons p rest)
  obtain t e where p: "p = (t, e)" by (cases p)
  from Cons.prems p have e: "0 \<le> e" "0 \<le> e + count_at node_edges t" by auto
  have rest: "\<forall>(t', e') \<in> set rest. 0 \<le> e' \<and> 0 \<le> e' + count_at (touch node_edges t) t'"
    using Cons.prems by auto
  show ?case
    using Cons.IH [OF rest] process_group_pair_term [OF e]
    by (simp add: p add.assoc)
qed

lemma sum_list_pair_diff:
  "(\<Sum>(t, e)\<leftarrow>xs. f t e - g t e) = (\<Sum>(t, e)\<leftarrow>xs. f t e) - (\<Sum>(t, e)\<leftarrow>xs. (g t e :: real))"
  by (induction xs) auto

subsection \<open>The calls of the logarithm\<close>

lemma process_group_pair_log_calls_pos:
  "(num, den) \<in> set (process_group_pair_log_calls d_t e n d_pre d_post) \<Longrightarrow> 0 < num"
  by (auto simp: process_group_pair_log_calls_def Let_def split: if_splits)

lemma old_group_log_calls_pos:
  "(num, den) \<in> set (old_group_log_calls degree_of d_pre d_post old_group_edges node_edges)
     \<Longrightarrow> 0 < num"
  by (induction old_group_edges arbitrary: node_edges)
     (auto dest: process_group_pair_log_calls_pos)

lemma new_group_log_calls_pos:
  "(num, den) \<in> set (new_group_log_calls degree_of d_pre d_post new_group_edges node_edges)
     \<Longrightarrow> 0 < num"
  by (induction new_group_edges arbitrary: node_edges)
     (auto dest: process_group_pair_log_calls_pos)

subsection \<open>The entropy delta\<close>

text \<open>
  Claim C2.  For a move of node \<open>v\<close> (degree \<open>d_v\<close>, histogram \<open>node_edges\<close>, so
  \<open>n_t = count_at node_edges t\<close>) from block \<open>r\<close> (degree \<open>e_r\<close>, histogram
  \<open>old_group_edges\<close>) to block \<open>s\<close> (degree \<open>e_s\<close>, histogram \<open>new_group_edges\<close>), the
  entropy delta returned is the sum of (post - pre) over exactly the pairs \<open>(t, r)\<close>
  with \<open>t\<close> an entry of r's histogram and the pairs \<open>(t, s)\<close> with \<open>t\<close> an entry of
  s's histogram: pre is the term of \<open>e_rt\<close> with \<open>e_r\<close> (of \<open>e_st\<close> with \<open>e_s\<close>), post
  the term of \<open>e_rt - n_t\<close> with \<open>e_r - d_v\<close> (of \<open>e_st + n_t\<close> with \<open>e_s + d_v\<close>), and
  a term with edge count zero is 0 (\<open>edge_entropy_term\<close>).  Every quotient handed to
  the logarithm has a positive numerator, so the logarithm is never evaluated at 0.
  The histograms are those of a network: counts are not negative and the node has
  no more edges to a block than its own block has.
\<close>

theorem make_proposal_decision_entropy_delta:
  assumes old: "\<forall>(t, e_rt) \<in> set old_group_edges. 0 \<le> e_rt \<and> count_at node_edges t \<le> e_rt"
      and new: "\<forall>(t, e_st) \<in> set new_group_edges. 0 \<le> e_st \<and> 0 \<le> e_st + count_at node_edges t"
  shows "entropy_delta (make_proposal_decision eps beta degree_of d_v e_r e_s
                          node_edges new_group_edges old_group_edges) =
           (\<Sum>(t, e_rt) \<leftarrow> old_group_edges.
               edge_entropy_term (e_rt - count_at node_edges t) (e_r - d_v) (degree_of t)
             - edge_entropy_term e_rt e_r (degree_of t))
         + (\<Sum>(t, e_st) \<leftarrow> new_group_edges.
               edge_entropy_term (e_st + count_at node_edges t) (e_s + d_v) (degree_of t)
             - edge_entropy_term e_st e_s (degree_of t))
       \<and> (\<forall>(num, den) \<in> set (make_proposal_decision_log_calls degree_of d_v e_r e_s
                                   node_edges new_group_edges old_group_edges). 0 < num)"
proof -
  let ?l1 = "old_group_loop degree_of (of_int e_r) (of_int e_r - of_int d_v)
               old_group_edges node_edges (0, 0)"
  have s1: "snd ?l1 =
     ((\<Sum>(t, e) \<leftarrow> old_group_edges. edge_entropy_term e e_r (degree_of t)),
      (\<Sum>(t, e) \<leftarrow> old_group_edges.
                   edge_entropy_term (e - count_at node_edges t) (e_r - d_v) (degree_of t)))"
    using old_group_loop_sum [OF old, of degree_of e_r "e_r - d_v" "(0, 0)"] by simp
  have new': "\<forall>(t, e_st) \<in> set new_group_edges. 0 \<le> e_st \<and> 0 \<le> e_st + count_at (fst ?l1) t"
    using new by simp
  let ?l2 = "new_group_loop degree_of (of_int e_s) (of_int e_s + of_int d_v)
               new_group_edges (fst ?l1) (snd ?l1)"
  have s2: "snd ?l2 =
     (fst (snd ?l1) + (\<Sum>(t, e) \<leftarrow> new_group_edges. edge_entropy_term e e_s (degree_of t)),
      snd (snd ?l1) + (\<Sum>(t, e) \<leftarrow> new_group_edges.
                   edge_entropy_term (e + count_at node_edges t) (e_s + d_v) (degree_of t)))"
    using new_group_loop_sum [OF new', of degree_of e_s "e_s + d_v" "snd ?l1"] by simp
  have "entropy_delta (make_proposal_decision eps beta degree_of d_v e_r e_s
                          node_edges new_group_edges old_group_edges) = snd (snd ?l2) - fst (snd ?l2)"
    by (simp add: make_proposal_decision_def Let_def split_beta)
  also have "\<dots> =
           (\<Sum>(t, e_rt) \<leftarrow> old_group_edges.
               edge_entropy_term (e_rt - count_at node_edges t) (e_r - d_v) (degree_of t)
             - edge_entropy_term e_rt e_r (degree_of t))
         + (\<Sum>(t, e_st) \<leftarrow> new_group_edges.
               edge_entropy_term (e_st + count_at node_edges t) (e_s + d_v) (degree_of t)
             - edge_entropy_term e_st e_s (degree_of t))"
    by (simp add: s2[unfolded s1] s1 split_beta sum_list_pair_diff)
  finally have delta: "entropy_delta (make_proposal_decision eps beta degree_of d_v e_r e_s
                          node_edges new_group_edges old_group_edges) =
           (\<Sum>(t, e_rt) \<leftarrow> old_group_edges.
               edge_entropy_term (e_rt - count_at node_edges t) (e_r - d_v) (degree_of t)
             - edge_entropy_term e_rt e_r (degree_of t))
         + (\<Sum>(t, e_st) \<leftarrow> new_group_edges.
               edge_entropy_term (e_st + count_at node_edges t) (e_s + d_v) (degree_of t)
             - edge_entropy_term e_st e_s (degree_of t))" .
  have logs: "\<forall>(num, den) \<in> set (make_proposal_decision_log_calls degree_of d_v e_r e_s
                                   node_edges new_group_edges old_group_edges). 0 < num"
    by (auto simp: make_proposal_decision_log_calls_def
             dest: old_group_log_calls_pos new_group_log_calls_pos)
  from delta logs show ?thesis by blast
qed

text \<open>
  The theorem at a network: the complete graph on four nodes, blocks \<open>r = {0, 1}\<close>
  (key 0) and \<open>s = {2, 3}\<close> (key 1), node 0 moved from \<open>r\<close> to \<open>s\<close>.  The node has
  degree 3, one edge into \<open>r\<close> and two into \<open>s\<close>; both blocks have degree 6; \<open>r\<close> has
  2 edge ends into itself and 4 into \<open>s\<close>, \<open>s\<close> has 4 into \<open>r\<close> and 2 into itself.
\<close>

theorem make_proposal_decision_entropy_delta_witness:
  "entropy_delta (make_proposal_decision (1/10) (3/2) (\<lambda>t. 6) 3 6 6
       [(0::nat, 1), (1, 2)] [(0, 4), (1, 2)] [(0, 2), (1, 4)]) =
     (edge_entropy_term 1 3 6 - edge_entropy_term 2 6 6) +
     (edge_entropy_term 2 3 6 - edge_entropy_term 4 6 6) +
     ((edge_entropy_term 5 9 6 - edge_entropy_term 4 6 6) +
      (edge_entropy_term 4 9 6 - edge_entropy_term 2 6 6))"
  using make_proposal_decision_entropy_delta
          [of "[(0::nat, 2), (1, 4)]" "[(0, 1), (1, 2)]" "[(0, 4), (1, 2)]"
              "1/10" "3/2" "\<lambda>t. 6" 3 6 6]
  by (simp add: count_at_def)

subsection \<open>The acceptance probability\<close>

lemma move_prob_loop_sum:
  "move_prob_loop eps old_group_edges new_group_edges node_edges acc =
     (fst acc + (\<Sum>(t, n_t) \<leftarrow> node_edges. of_int (count_at old_group_edges t) + eps),
      snd acc + (\<Sum>(t, n_t) \<leftarrow> node_edges. of_int (count_at new_group_edges t) + eps))"
  by (induction node_edges arbitrary: acc) (auto simp: add.assoc)

lemma sum_list_pos_nonempty:
  "xs \<noteq> [] \<Longrightarrow> (\<And>x. x \<in> set xs \<Longrightarrow> 0 < f x) \<Longrightarrow> 0 < (\<Sum>x\<leftarrow>xs. (f x :: real))"
proof (induction xs)
  case Nil
  then show ?case by simp
next
  case (Cons a xs)
  show ?case
  proof (cases "xs = []")
    case True
    then show ?thesis using Cons.prems by simp
  next
    case False
    then have "0 < (\<Sum>x\<leftarrow>xs. f x)" using Cons by simp
    moreover have "0 < f a" using Cons.prems by simp
    ultimately show ?thesis by simp
  qed
qed

text \<open>
  Claim C1, as amended.  For a move of node \<open>v\<close> from block \<open>r\<close> to block \<open>s\<close>,
  when every neighbour block of \<open>r\<close> and of \<open>s\<close> is a neighbour block of \<open>v\<close> (so the
  lookups \<open>node_edges[t]\<close> of the entropy loops add no key to v's histogram),
  \<open>make_proposal_decision\<close> returns the acceptance probability
  \<open>min(1, exp(beta * deltaS) * P)\<close> where \<open>P\<close> is the quotient of the sum over v's
  neighbour blocks \<open>t\<close> of \<open>e_rt + eps\<close> by the sum over the same \<open>t\<close> of
  \<open>e_st + eps\<close>: each neighbour block counts once, not \<open>n_t\<close> times.  \<open>e_rt\<close> and
  \<open>e_st\<close> are the pre-move block-to-block edge counts.  With \<open>eps > 0\<close> and a node
  that has a neighbour the divisor is positive.
\<close>

theorem make_proposal_decision_prob_of_accept:
  assumes old: "fst ` set old_group_edges \<subseteq> fst ` set node_edges"
      and new: "fst ` set new_group_edges \<subseteq> fst ` set node_edges"
      and eps_pos: "0 < eps"
      and ne: "node_edges \<noteq> []"
      and nonneg: "\<forall>(t, e_st) \<in> set new_group_edges. 0 \<le> e_st"
  shows "prob_of_accept (make_proposal_decision eps beta degree_of d_v e_r e_s
                           node_edges new_group_edges old_group_edges) =
           min 1 (exp (beta * entropy_delta (make_proposal_decision eps beta degree_of d_v e_r e_s
                                               node_edges new_group_edges old_group_edges)) *
                  ((\<Sum>(t, n_t) \<leftarrow> node_edges. of_int (count_at old_group_edges t) + eps) /
                   (\<Sum>(t, n_t) \<leftarrow> node_edges. of_int (count_at new_group_edges t) + eps)))
       \<and> 0 < (\<Sum>(t, n_t) \<leftarrow> node_edges. of_int (count_at new_group_edges t) + eps)"
proof -
  let ?l1 = "old_group_loop degree_of (of_int e_r) (of_int e_r - of_int d_v)
               old_group_edges node_edges (0, 0)"
  have k1: "fst ?l1 = node_edges" by (rule old_group_loop_same_keys [OF old])
  have k2: "fst (new_group_loop degree_of (of_int e_s) (of_int e_s + of_int d_v)
               new_group_edges node_edges (snd ?l1)) = node_edges"
    by (rule new_group_loop_same_keys [OF new])
  have prob: "prob_of_accept (make_proposal_decision eps beta degree_of d_v e_r e_s
                           node_edges new_group_edges old_group_edges) =
           min 1 (exp (beta * entropy_delta (make_proposal_decision eps beta degree_of d_v e_r e_s
                                               node_edges new_group_edges old_group_edges)) *
                  ((\<Sum>(t, n_t) \<leftarrow> node_edges. of_int (count_at old_group_edges t) + eps) /
                   (\<Sum>(t, n_t) \<leftarrow> node_edges. of_int (count_at new_group_edges t) + eps)))"
    by (simp add: make_proposal_decision_def Let_def split_beta k1 k2 move_prob_loop_sum min_def)
  have "\<And>x. x \<in> set node_edges \<Longrightarrow>
          0 < (case x of (t, n_t) \<Rightarrow> real_of_int (count_at new_group_edges t) + eps)"
    using count_at_nonneg [OF nonneg] eps_pos by (auto simp: add_nonneg_pos split: prod.splits)
  from sum_list_pos_nonempty [OF ne this]
  have pos: "0 < (\<Sum>(t, n_t) \<leftarrow> node_edges. of_int (count_at new_group_edges t) + eps)" .
  from prob pos show ?thesis by blast
qed

text \<open>
  At the complete graph on four nodes (blocks \<open>{0, 1}\<close> and \<open>{2, 3}\<close>, node 0 moved,
  \<open>eps = 0.1\<close>, \<open>beta = 1.5\<close>) both sums are \<open>(2 + eps) + (4 + eps)\<close>, the quotient is 1.
\<close>

theorem make_proposal_decision_prob_of_accept_witness:
  "prob_of_accept (make_proposal_decision (1/10) (3/2) (\<lambda>t. 6) 3 6 6
       [(0::nat, 1), (1, 2)] [(0, 4), (1, 2)] [(0, 2), (1, 4)]) =
     min 1 (exp (3/2 * entropy_delta (make_proposal_decision (1/10) (3/2) (\<lambda>t. 6) 3 6 6
                         [(0::nat, 1), (1, 2)] [(0, 4), (1, 2)] [(0, 2), (1, 4)])))"
  using make_proposal_decision_prob_of_accept
          [of "[(0::nat, 2), (1, 4)]" "[(0, 1), (1, 2)]" "[(0, 4), (1, 2)]"
              "1/10" "3/2" "\<lambda>t. 6" 3 6 6]
  by (simp add: count_at_def)

text \<open>
  The claim as stated fails at the same move.  The entropy delta there is
  \<open>ln (12500 / 19683) < 0\<close>, so the code returns \<open>exp(1.5 * deltaS) < 1\<close>; the
  quotient of the claim weights the two neighbour blocks by \<open>n_t = 1\<close> and
  \<open>n_t = 2\<close> and is \<open>10.3 / 8.3\<close>.
\<close>

lemma ln_54: "ln (54::real) = ln 2 + 3 * ln 3"
proof -
  have "ln (54::real) = ln (2 * 3 ^ 3)" by simp
  also have "\<dots> = ln 2 + 3 * ln 3" by (simp only: ln_mult ln_realpow) simp
  finally show ?thesis .
qed

lemma ln_27: "ln (27::real) = 3 * ln 3"
proof -
  have "ln (27::real) = ln (3 ^ 3)" by simp
  also have "\<dots> = 3 * ln 3" by (simp only: ln_realpow of_nat_numeral)
  finally show ?thesis .
qed

lemma ln_9: "ln (9::real) = 2 * ln 3"
proof -
  have "ln (9::real) = ln (3 ^ 2)" by simp
  also have "\<dots> = 2 * ln 3" by (simp only: ln_realpow of_nat_numeral)
  finally show ?thesis .
qed

lemma ln_18: "ln (18::real) = ln 2 + 2 * ln 3"
proof -
  have "ln (18::real) = ln (2 * 3 ^ 2)" by simp
  also have "\<dots> = ln 2 + 2 * ln 3" by (simp only: ln_mult ln_realpow) simp
  finally show ?thesis .
qed

lemma ln_12500_less_ln_19683: "5 * ln (5::real) + 2 * ln 2 < 9 * ln 3"
proof -
  have "ln ((5::real) ^ 5 * 2 ^ 2) < ln (3 ^ 9)"
    by (subst ln_less_cancel_iff) simp_all
  moreover have "ln ((5::real) ^ 5 * 2 ^ 2) = 5 * ln 5 + 2 * ln 2"
    by (simp only: ln_mult ln_realpow) simp
  moreover have "ln ((3::real) ^ 9) = 9 * ln 3"
    by (simp only: ln_realpow of_nat_numeral)
  ultimately show ?thesis by linarith
qed

lemma K4_entropy_delta:
  "entropy_delta (make_proposal_decision (1/10) (3/2) (\<lambda>t. 6) 3 6 6
       [(0::nat, 1), (1, 2)] [(0, 4), (1, 2)] [(0, 2), (1, 4)])
   = 5 * ln 5 + 2 * ln 2 - 9 * ln 3"
  by (simp add: make_proposal_decision_def Let_def split_beta count_at_def touch_def
       process_group_pair_def ln_div ln_54 ln_27 ln_9 ln_18)

lemma K4_prob_of_accept:
  "prob_of_accept (make_proposal_decision (1/10) (3/2) (\<lambda>t. 6) 3 6 6
       [(0::nat, 1), (1, 2)] [(0, 4), (1, 2)] [(0, 2), (1, 4)])
   = exp (3/2 * (5 * ln 5 + 2 * ln 2 - 9 * ln 3))"
proof -
  have "exp (3/2 * (5 * ln 5 + 2 * ln 2 - 9 * ln (3::real))) < 1"
    using ln_12500_less_ln_19683 by simp
  then show ?thesis
    by (simp add: make_proposal_decision_def Let_def split_beta count_at_def touch_def
         process_group_pair_def ln_div ln_54 ln_27 ln_9 ln_18)
qed

theorem make_proposal_decision_not_weighted:
  "prob_of_accept (make_proposal_decision (1/10) (3/2) (\<lambda>t. 6) 3 6 6
       [(0::nat, 1), (1, 2)] [(0, 4), (1, 2)] [(0, 2), (1, 4)])
   \<noteq> min 1 (exp (3/2 * entropy_delta (make_proposal_decision (1/10) (3/2) (\<lambda>t. 6) 3 6 6
                         [(0::nat, 1), (1, 2)] [(0, 4), (1, 2)] [(0, 2), (1, 4)]))
            * P_ratio_spec (1/10) [(0::nat, 1), (1, 2)] [(0, 2), (1, 4)] [(0, 4), (1, 2)])"
proof -
  define x where "x = exp (3/2 * (5 * ln 5 + 2 * ln 2 - 9 * ln (3::real)))"
  have x1: "x < 1" unfolding x_def using ln_12500_less_ln_19683 by simp
  have x0: "0 < x" unfolding x_def by simp
  have P: "P_ratio_spec (1/10) [(0::nat, 1), (1, 2)] [(0, 2), (1, 4)] [(0, 4), (1, 2)] = 103 / 83"
    by (simp add: P_ratio_spec_def count_at_def)
  have "x \<noteq> min 1 (x * (103 / 83))"
    using x0 x1 by (auto simp: min_def)
  then show ?thesis
    unfolding K4_prob_of_accept K4_entropy_delta P x_def .
qed

section \<open>Adding a node\<close>

text \<open>
  Claim C8, as amended.  \<open>add_node(id, type, level)\<close> makes no check for a node with
  the same id.  In \<open>SBM_Network\<close>: when the type is in the type table (with an index
  inside it) and the level exists, the node is appended to the (type, level)
  bucket, whatever ids the bucket holds already, and a reference to it is returned;
  when the type is not in the table or the level does not exist the call fails and
  the network is unchanged.  \<open>Network::add_node\<close> cannot fail: it creates a missing
  level and stores the node under its id in the level's map, in place of a node
  that had the id.
\<close>

theorem add_node_no_duplicate_check:
  "(map_of (type_name_to_int net) type_name = Some type_index \<and>
      0 \<le> type_index \<and> type_index < num_types net \<and> 0 \<le> l \<and> l < num_levels net \<longrightarrow>
    SBM_Network_add_node i type_name l net =
      (Inr (length (sbm_heap net)),
       net\<lparr> sbm_heap := sbm_heap net @ [new_Node i l type_index],
             sbm_nodes := (sbm_nodes net)
                [nat l := (sbm_nodes net ! nat l)
                   [nat type_index :=
                      sbm_nodes net ! nat l ! nat type_index @ [length (sbm_heap net)]]] \<rparr>))
   \<and> (map_of (type_name_to_int net) type_name = None \<or> l < 0 \<or> num_levels net \<le> l \<longrightarrow>
        (\<exists>e. SBM_Network_add_node i type_name l net = (Inl e, net)))
   \<and> (i \<noteq> ''new block'' \<longrightarrow>
        fst (Network_add_node i t l' old_net) = length (heap old_net) \<and>
        level_map (snd (Network_add_node i t l' old_net)) l' =
          AList.update i (length (heap old_net)) (level_map old_net l'))"
proof -
  have ok: "map_of (type_name_to_int net) type_name = Some type_index \<and>
      0 \<le> type_index \<and> type_index < num_types net \<and> 0 \<le> l \<and> l < num_levels net \<longrightarrow>
    SBM_Network_add_node i type_name l net =
      (Inr (length (sbm_heap net)),
       net\<lparr> sbm_heap := sbm_heap net @ [new_Node i l type_index],
             sbm_nodes := (sbm_nodes net)
                [nat l := (sbm_nodes net ! nat l)
                   [nat type_index :=
                      sbm_nodes net ! nat l ! nat type_index @ [length (sbm_heap net)]]] \<rparr>)"
    by (simp add: SBM_Network_add_node_def get_type_index_def get_nodes_of_type_def
          check_for_type_def check_for_level_def num_levels_def Let_def)
  have fails: "map_of (type_name_to_int net) type_name = None \<or> l < 0 \<or> num_levels net \<le> l \<longrightarrow>
        (\<exists>e. SBM_Network_add_node i type_name l net = (Inl e, net))"
    by (auto simp: SBM_Network_add_node_def get_type_index_def get_nodes_of_type_def
          check_for_type_def check_for_level_def num_levels_def Let_def split: option.splits)
  have old: "i \<noteq> ''new block'' \<longrightarrow>
        fst (Network_add_node i t l' old_net) = length (heap old_net) \<and>
        level_map (snd (Network_add_node i t l' old_net)) l' =
          AList.update i (length (heap old_net)) (level_map old_net l')"
  proof (cases "map_of (nodes old_net) l'")
    case None
    then show ?thesis
      by (simp add: Network_add_node_def get_level_def add_level_def level_map_def Let_def
            update_conv' map_add_def)
  next
    case (Some m)
    then show ?thesis
      by (simp add: Network_add_node_def get_level_def add_level_def level_map_def Let_def
            update_conv')
  qed
  from ok fails old show ?thesis by blast
qed

text \<open>The network \<open>SBM_Network(["node"], seed)\<close> and its first node.\<close>

theorem add_node_no_duplicate_check_witness:
  "SBM_Network_add_node ''a'' ''node'' 0 (SBM_Network_new [''node''] (sconst 0)) =
     (Inr 0,
      \<lparr> sbm_heap = [new_Node ''a'' 0 0], sbm_nodes = [[[0]]], types = [''node''],
        type_name_to_int = [(''node'', 0)], random_sampler = sconst 0, block_counter = 0 \<rparr>)
   \<and> SBM_Network_add_node ''a'' ''edge'' 0 (SBM_Network_new [''node''] (sconst 0)) =
       (Inl (LogicError ''Type edge doesn't exist in network''),
        SBM_Network_new [''node''] (sconst 0))
   \<and> level_map (snd (Network_add_node ''a'' 0 0 (snd (Network_add_node ''a'' 0 0 empty_Network)))) 0
       = [(''a'', 1)]"
  using add_node_no_duplicate_check
          [of "SBM_Network_new [''node''] (sconst 0)" "''node''" 0 0 "''a''" 0 0
              "snd (Network_add_node ''a'' 0 0 empty_Network)"]
        add_node_no_duplicate_check
          [of "SBM_Network_new [''node''] (sconst 0)" "''edge''" 0 0 "''a''" 0 0 empty_Network]
  by (simp add: SBM_Network_new_def build_level_def num_types_def num_levels_def
        SBM_Network_add_node_def get_type_index_def
        Network_add_node_def get_level_def add_level_def level_map_def empty_Network_def Let_def)

text \<open>
  The claim as stated fails: a second \<open>add_node("a", "node", 0)\<close> succeeds, and the
  bucket of type \<open>node\<close> at level 0 then holds two nodes with the id \<open>a\<close>.
\<close>

theorem add_node_accepts_duplicate_id:
  "SBM_Network_add_node ''a'' ''node'' 0
     (snd (SBM_Network_add_node ''a'' ''node'' 0 (SBM_Network_new [''node''] (sconst 0)))) =
     (Inr 1,
      \<lparr> sbm_heap = [new_Node ''a'' 0 0, new_Node ''a'' 0 0], sbm_nodes = [[[0, 1]]],
        types = [''node''], type_name_to_int = [(''node'', 0)],
        random_sampler = sconst 0, block_counter = 0 \<rparr>)"
  by (simp add: SBM_Network_new_def build_level_def SBM_Network_add_node_def get_type_index_def
        get_nodes_of_type_def check_for_type_def check_for_level_def num_types_def Let_def)

section \<open>Block ids\<close>

lemma two_empty_blocks_eq:
  "two_empty_blocks =
     \<lparr> heap = [new_Node ''a'' 0 0, new_Node ''0-1_0'' 1 0, new_Node ''0-1_1'' 1 0],
       nodes = [(0, [(''a'', 0)]), (1, [(''0-1_0'', 1), (''0-1_1'', 2)])],
       node_type_counts = [(0, [(0, 1), (1, 2)])] \<rparr>"
  by (simp add: two_empty_blocks_def empty_Network_def create_block_node_def
        Network_add_node_def get_level_def add_level_def level_map_def bump_count_def Let_def
        build_block_id_def to_string_def digits_of.simps digit_char_def)

lemma clean_two_empty_blocks:
  "clean_empty_blocks two_empty_blocks =
     (Inr [1, 2],
      \<lparr> heap = [new_Node ''a'' 0 0, new_Node ''0-1_0'' 1 0, new_Node ''0-1_1'' 1 0],
        nodes = [(0, [(''a'', 0)]), (1, [])],
        node_type_counts = [(0, [(0, 1), (1, 0)])] \<rparr>)"
  by (simp add: two_empty_blocks_eq clean_empty_blocks_def new_Node_def bump_count_def)

text \<open>
  Claim C9 at \<open>Network\<close> (Network.cpp).  Two blocks are created at level 1 and get
  the ids \<open>0-1_0\<close> and \<open>0-1_1\<close>; \<open>clean_empty_blocks\<close> deletes both, as neither has a
  child; the next block created at level 1 is given the id \<open>0-1_0\<close> again, the id
  of a deleted block.  \<open>build_block_id\<close> numbers a block by the size of its level at
  the time.
\<close>

theorem create_block_node_reuses_deleted_id:
  "map (\<lambda>p. node_id (heap two_empty_blocks ! p)) [1, 2] = [''0-1_0'', ''0-1_1'']
   \<and> fst (clean_empty_blocks two_empty_blocks) = Inr [1, 2]
   \<and> level_map (snd (clean_empty_blocks two_empty_blocks)) 1 = []
   \<and> fst (create_block_node 0 1 (snd (clean_empty_blocks two_empty_blocks))) = Inr 3
   \<and> node_id (heap (snd (create_block_node 0 1 (snd (clean_empty_blocks two_empty_blocks)))) ! 3)
       = ''0-1_0''"
  by (simp add: clean_two_empty_blocks)
     (simp add: two_empty_blocks_eq create_block_node_def
        Network_add_node_def get_level_def add_level_def level_map_def bump_count_def Let_def
        build_block_id_def to_string_def digits_of.simps digit_char_def new_Node_def)

section \<open>Nodes on the heap\<close>

lemma nth_upd: "h[a := v] ! x = (if x = a \<and> a < length h then v else h ! x)"
  by (cases "a < length h") (auto simp: nth_list_update list_update_beyond)

lemma add_degree_up_length [simp]: "length (add_degree_up fuel a d h) = length h"
  by (induction fuel a d h rule: add_degree_up.induct) auto

lemma add_degree_up_fields:
  "parent (add_degree_up fuel a d h ! x) = parent (h ! x)
   \<and> children (add_degree_up fuel a d h ! x) = children (h ! x)
   \<and> level (add_degree_up fuel a d h ! x) = level (h ! x)
   \<and> type (add_degree_up fuel a d h ! x) = type (h ! x)
   \<and> node_id (add_degree_up fuel a d h ! x) = node_id (h ! x)
   \<and> connections (add_degree_up fuel a d h ! x) = connections (h ! x)"
  by (induction fuel a d h rule: add_degree_up.induct) (simp_all add: nth_upd)

lemmas add_degree_up_simps [simp] =
  add_degree_up_fields [THEN conjunct1]
  add_degree_up_fields [THEN conjunct2, THEN conjunct1]
  add_degree_up_fields [THEN conjunct2, THEN conjunct2, THEN conjunct1]
  add_degree_up_fields [THEN conjunct2, THEN conjunct2, THEN conjunct2, THEN conjunct1]
  add_degree_up_fields [THEN conjunct2, THEN conjunct2, THEN conjunct2, THEN conjunct2, THEN conjunct1]
  add_degree_up_fields [THEN conjunct2, THEN conjunct2, THEN conjunct2, THEN conjunct2, THEN conjunct2]

lemma set_parent_length [simp]: "length (set_parent c p h) = length h"
  by (simp add: set_parent_def Let_def add_child_def remove_child_def split: option.splits)

lemma set_parent_parent:
  "parent (set_parent c p h ! x) = (if x = c \<and> c < length h then Some p else parent (h ! x))"
proof (cases "parent (h ! c)")
  case None
  then show ?thesis
    by (simp add: set_parent_def Let_def add_child_def remove_child_def nth_upd)
next
  case (Some old)
  then show ?thesis
    by (simp add: set_parent_def Let_def add_child_def remove_child_def nth_upd)
qed

lemma set_parent_static [simp]:
  "level (set_parent c p h ! x) = level (h ! x)"
  "type (set_parent c p h ! x) = type (h ! x)"
  "node_id (set_parent c p h ! x) = node_id (h ! x)"
  by (cases "parent (h ! c)";
      simp add: set_parent_def Let_def add_child_def remove_child_def nth_upd)+

lemma set_parent_children:
  assumes "p < length h" "c \<noteq> p"
  shows "children (set_parent c p h ! x) =
     (if x = p then removeAll c (children (h ! p)) @ [c]
      else if parent (h ! c) = Some x \<and> x < length h then removeAll c (children (h ! x))
      else children (h ! x))"
proof (cases "parent (h ! c)")
  case None
  then show ?thesis using assms
    by (simp add: set_parent_def Let_def add_child_def remove_child_def nth_upd)
next
  case (Some old)
  then show ?thesis using assms
    by (simp add: set_parent_def Let_def add_child_def remove_child_def nth_upd)
qed

section \<open>One block per node\<close>

lemma length_AList_update: "length al \<le> length (AList.update k v al)"
  by (induction al) auto

lemma type_count_bump_count:
  "type_count (bump_count t l d counts) t' l' =
     (if t' = t \<and> l' = l then type_count counts t l + d else type_count counts t' l')"
  by (auto simp: type_count_def bump_count_def Let_def update_conv' split: option.splits)

lemma length_bump_count: "length counts \<le> length (bump_count t l d counts)"
  by (simp add: bump_count_def Let_def length_AList_update)

lemma level_map_get_level [simp]: "level_map (get_level l net) l' = level_map net l'"
  by (auto simp: level_map_def get_level_def add_level_def map_add_def split: option.splits)

lemma heap_get_level [simp]: "heap (get_level l net) = heap net"
  by (simp add: get_level_def add_level_def)

lemma counts_get_level [simp]: "node_type_counts (get_level l net) = node_type_counts net"
  by (simp add: get_level_def add_level_def)


lemma create_block_node_ok:
  assumes "l \<noteq> 0"
  shows "\<exists>net'. create_block_node t l net = (Inr (length (heap net)), net')
           \<and> heap net' = heap net @ [new_Node (build_block_id t l (int (length (level_map net l)))) l t]
           \<and> level_map net' l \<noteq> []
           \<and> (\<forall>l'. l' \<noteq> l \<longrightarrow> map_of (nodes net') l' = map_of (nodes net) l')
           \<and> node_type_counts net' = bump_count t l 1 (node_type_counts net)"
  using assms
  by (auto simp: create_block_node_def Network_add_node_def Let_def level_map_def update_conv'
        get_level_def add_level_def map_add_def split: option.splits)

lemma level_map_heap_update [simp]: "level_map (net\<lparr> heap := h \<rparr>) l = level_map net l"
  by (simp add: level_map_def)

lemma assign_blocks_own_block:
  assumes "l + 1 \<noteq> 0" and "distinct ns"
      and "\<forall>n\<in>set ns. n < length (heap net) \<and>
             (\<forall>p. parent (heap net ! n) = Some p \<longrightarrow> p < length (heap net))"
  shows "\<exists>net'. assign_blocks True l tbs ns bs net = (Inr (), net')
     \<and> length (heap net') = length (heap net) + length ns
     \<and> (\<forall>i<length ns.
           parent (heap net' ! (ns ! i)) = Some (length (heap net) + i)
         \<and> children (heap net' ! (length (heap net) + i)) = [ns ! i]
         \<and> level (heap net' ! (length (heap net) + i)) = l + 1
         \<and> type (heap net' ! (length (heap net) + i)) = type (heap net ! (ns ! i)))
     \<and> (\<forall>x<length (heap net). x \<notin> set ns \<longrightarrow> parent (heap net' ! x) = parent (heap net ! x))
     \<and> (\<forall>x<length (heap net). (\<forall>n\<in>set ns. parent (heap net ! n) \<noteq> Some x) \<longrightarrow>
           children (heap net' ! x) = children (heap net ! x))
     \<and> (\<forall>x<length (heap net). level (heap net' ! x) = level (heap net ! x)
           \<and> type (heap net' ! x) = type (heap net ! x))
     \<and> (level_map net (l + 1) \<noteq> [] \<or> ns \<noteq> [] \<longrightarrow> level_map net' (l + 1) \<noteq> [])
     \<and> (\<forall>l'. l' \<noteq> l + 1 \<longrightarrow> map_of (nodes net') l' = map_of (nodes net) l')
     \<and> (\<forall>t l'. l' \<noteq> l + 1 \<longrightarrow>
           type_count (node_type_counts net') t l' = type_count (node_type_counts net) t l')
     \<and> length (node_type_counts net) \<le> length (node_type_counts net')"
  using assms(2,3)
proof (induction ns arbitrary: net)
  case Nil
  then show ?case by simp
next
  case (Cons n ns)
  let ?H = "length (heap net)"
  let ?t = "type (heap net ! n)"
  from Cons.prems have n: "n < ?H" and np: "\<And>p. parent (heap net ! n) = Some p \<Longrightarrow> p < ?H"
    and dist: "distinct ns" and nn: "n \<notin> set ns"
    and rest: "\<And>m. m \<in> set ns \<Longrightarrow> m < ?H"
    and restp: "\<And>m p. m \<in> set ns \<Longrightarrow> parent (heap net ! m) = Some p \<Longrightarrow> p < ?H"
    by auto
  from create_block_node_ok [OF assms(1), of ?t net]
  obtain net1 where c: "create_block_node ?t (l + 1) net = (Inr ?H, net1)"
    and h1: "heap net1 = heap net @ [new_Node (build_block_id ?t (l + 1) (int (length (level_map net (l + 1))))) (l + 1) ?t]"
    and lm1: "level_map net1 (l + 1) \<noteq> []"
    and fr1: "\<And>l'. l' \<noteq> l + 1 \<Longrightarrow> map_of (nodes net1) l' = map_of (nodes net) l'"
    and ct1: "node_type_counts net1 = bump_count ?t (l + 1) 1 (node_type_counts net)"
    by blast
  define h2 where "h2 = set_parent n ?H (heap net1)"
  define net2 where "net2 = net1\<lparr> heap := h2 \<rparr>"
  have len1: "length (heap net1) = Suc ?H" by (simp add: h1)
  have old: "\<And>x. x < ?H \<Longrightarrow> heap net1 ! x = heap net ! x" by (simp add: h1 nth_append)
  have new: "heap net1 ! ?H = new_Node (build_block_id ?t (l + 1) (int (length (level_map net (l + 1))))) (l + 1) ?t"
    by (simp add: h1)
  have len2: "length h2 = Suc ?H" by (simp add: h2_def len1)
  have par2: "\<And>x. parent (h2 ! x) = (if x = n then Some ?H else parent (heap net1 ! x))"
    using n by (simp add: h2_def set_parent_parent len1)
  have nH: "n \<noteq> ?H" using n by simp
  have chi2: "\<And>x. children (h2 ! x) =
     (if x = ?H then [n]
      else if parent (heap net ! n) = Some x \<and> x < Suc ?H then removeAll n (children (heap net1 ! x))
      else children (heap net1 ! x))"
    unfolding h2_def using set_parent_children [of ?H "heap net1" n] nH n
    by (simp add: len1 new new_Node_def old)
  have stat2: "\<And>x. level (h2 ! x) = level (heap net1 ! x) \<and> type (h2 ! x) = type (heap net1 ! x)"
    by (simp add: h2_def)
  have heap2: "heap net2 = h2" by (simp add: net2_def)
  have pre2: "\<forall>m\<in>set ns. m < length (heap net2) \<and>
             (\<forall>p. parent (heap net2 ! m) = Some p \<longrightarrow> p < length (heap net2))"
  proof
    fix m assume m: "m \<in> set ns"
    then have "m \<noteq> n" using nn by auto
    then have "parent (h2 ! m) = parent (heap net ! m)" using rest [OF m] by (simp add: par2 old)
    then show "m < length (heap net2) \<and>
             (\<forall>p. parent (heap net2 ! m) = Some p \<longrightarrow> p < length (heap net2))"
      using rest [OF m] restp [OF m] by (auto simp: heap2 len2 less_Suc_eq)
  qed
  from Cons.IH [OF dist pre2]
  obtain net' where r: "assign_blocks True l tbs ns bs net2 = (Inr (), net')"
    and len': "length (heap net') = Suc ?H + length ns"
    and blk': "\<And>i. i < length ns \<Longrightarrow>
           parent (heap net' ! (ns ! i)) = Some (Suc ?H + i)
         \<and> children (heap net' ! (Suc ?H + i)) = [ns ! i]
         \<and> level (heap net' ! (Suc ?H + i)) = l + 1
         \<and> type (heap net' ! (Suc ?H + i)) = type (h2 ! (ns ! i))"
    and fp': "\<And>x. x < Suc ?H \<Longrightarrow> x \<notin> set ns \<Longrightarrow> parent (heap net' ! x) = parent (h2 ! x)"
    and fc': "\<And>x. x < Suc ?H \<Longrightarrow> (\<forall>m\<in>set ns. parent (h2 ! m) \<noteq> Some x) \<Longrightarrow>
           children (heap net' ! x) = children (h2 ! x)"
    and fs': "\<And>x. x < Suc ?H \<Longrightarrow> level (heap net' ! x) = level (h2 ! x)
           \<and> type (heap net' ! x) = type (h2 ! x)"
    and lm': "level_map net2 (l + 1) \<noteq> [] \<or> ns \<noteq> [] \<longrightarrow> level_map net' (l + 1) \<noteq> []"
    and fr': "\<And>l'. l' \<noteq> l + 1 \<Longrightarrow> map_of (nodes net') l' = map_of (nodes net2) l'"
    and ct': "\<And>t l'. l' \<noteq> l + 1 \<Longrightarrow>
           type_count (node_type_counts net') t l' = type_count (node_type_counts net2) t l'"
    and lc': "length (node_type_counts net2) \<le> length (node_type_counts net')"
    unfolding heap2 len2 by blast
  have parents_rest: "\<And>m. m \<in> set ns \<Longrightarrow> parent (h2 ! m) = parent (heap net ! m)"
    using nn rest by (auto simp: par2 old)
  have eq: "assign_blocks True l tbs (n # ns) bs net = (Inr (), net')"
    using c r by (simp add: net2_def h2_def)
  have g_len: "length (heap net') = ?H + length (n # ns)" using len' by simp
  have g_blk: "\<forall>i<length (n # ns).
           parent (heap net' ! ((n # ns) ! i)) = Some (?H + i)
         \<and> children (heap net' ! (?H + i)) = [(n # ns) ! i]
         \<and> level (heap net' ! (?H + i)) = l + 1
         \<and> type (heap net' ! (?H + i)) = type (heap net ! ((n # ns) ! i))"
  proof (intro allI impI)
    fix i assume i: "i < length (n # ns)"
    show "parent (heap net' ! ((n # ns) ! i)) = Some (?H + i)
         \<and> children (heap net' ! (?H + i)) = [(n # ns) ! i]
         \<and> level (heap net' ! (?H + i)) = l + 1
         \<and> type (heap net' ! (?H + i)) = type (heap net ! ((n # ns) ! i))"
    proof (cases i)
      case 0
      have "parent (heap net' ! n) = Some ?H"
        using fp' [of n] n nn by (simp add: par2)
      moreover have "\<forall>m\<in>set ns. parent (h2 ! m) \<noteq> Some ?H"
        using parents_rest restp by fastforce
      then have "children (heap net' ! ?H) = [n]"
        using fc' [of ?H] by (simp add: chi2)
      moreover have "level (heap net' ! ?H) = l + 1 \<and> type (heap net' ! ?H) = ?t"
        using fs' [of ?H] stat2 [of ?H] by (simp add: new new_Node_def)
      ultimately show ?thesis using 0 by simp
    next
      case (Suc j)
      then have j: "j < length ns" using i by simp
      have "type (h2 ! (ns ! j)) = type (heap net ! (ns ! j))"
        using stat2 [of "ns ! j"] rest [of "ns ! j"] j by (simp add: old)
      then show ?thesis using blk' [OF j] Suc by simp
    qed
  qed
  have g_fp: "\<forall>x<?H. x \<notin> set (n # ns) \<longrightarrow> parent (heap net' ! x) = parent (heap net ! x)"
    using fp' by (auto simp: par2 old)
  have g_fc: "\<forall>x<?H. (\<forall>m\<in>set (n # ns). parent (heap net ! m) \<noteq> Some x) \<longrightarrow>
           children (heap net' ! x) = children (heap net ! x)"
  proof (intro allI impI)
    fix x assume x: "x < ?H" and no: "\<forall>m\<in>set (n # ns). parent (heap net ! m) \<noteq> Some x"
    have "\<forall>m\<in>set ns. parent (h2 ! m) \<noteq> Some x" using no parents_rest by auto
    then have "children (heap net' ! x) = children (h2 ! x)" using fc' [of x] x by simp
    also have "\<dots> = children (heap net ! x)" using x no by (simp add: chi2 old)
    finally show "children (heap net' ! x) = children (heap net ! x)" .
  qed
  have g_fs: "\<forall>x<?H. level (heap net' ! x) = level (heap net ! x)
           \<and> type (heap net' ! x) = type (heap net ! x)"
    using fs' stat2 by (auto simp: old)
  have g_lm: "level_map net (l + 1) \<noteq> [] \<or> n # ns \<noteq> [] \<longrightarrow> level_map net' (l + 1) \<noteq> []"
    using lm' lm1 by (simp add: net2_def)
  have g_fr: "\<forall>l'. l' \<noteq> l + 1 \<longrightarrow> map_of (nodes net') l' = map_of (nodes net) l'"
    using fr' fr1 by (simp add: net2_def)
  have g_ct: "\<forall>t l'. l' \<noteq> l + 1 \<longrightarrow>
           type_count (node_type_counts net') t l' = type_count (node_type_counts net) t l'"
    using ct' by (simp add: net2_def ct1 type_count_bump_count)
  have g_lc: "length (node_type_counts net) \<le> length (node_type_counts net')"
    using lc' length_bump_count [of "node_type_counts net" ?t "l + 1" 1]
    by (simp add: net2_def ct1)
  from eq g_len g_blk g_fp g_fc g_fs g_lm g_fr g_ct g_lc show ?case by blast
qed

lemma too_few_groups_True:
  "\<exists>i\<in>set indices. type_count counts i group_level < 2 \<Longrightarrow>
   fst (too_few_groups indices group_level counts)"
proof (induction indices arbitrary: counts)
  case Nil
  then show ?case by simp
next
  case (Cons i rest)
  let ?c1 = "bump_count i group_level 0 counts"
  have same: "\<And>t. type_count ?c1 t group_level = type_count counts t group_level"
    by (simp add: type_count_bump_count)
  show ?case
  proof (cases "type_count ?c1 i group_level < 2")
    case True
    then show ?thesis by (simp add: Let_def)
  next
    case False
    with Cons.prems same have "\<exists>j\<in>set rest. type_count ?c1 j group_level < 2" by auto
    from Cons.IH [OF this] False show ?thesis by (simp add: Let_def)
  qed
qed

lemma initialize_blocks_one_per_node:
  assumes lvl: "map_of (nodes net) l = Some node_level" and ne: "node_level \<noteq> []"
  shows "Network_initialize_blocks (- 1) l bs net =
           assign_blocks True l [] (map snd node_level) bs
             ((get_level (l + 1) net)\<lparr> nodes := AList.update (l + 1) [] (nodes (get_level (l + 1) net)) \<rparr>)"
proof -
  have "map_of (AList.update (l + 1) [] (nodes (get_level (l + 1) net))) l = Some node_level"
    using lvl by (auto simp: update_conv' get_level_def add_level_def map_add_def)
  then show ?thesis using ne
    by (simp add: Network_initialize_blocks_def Let_def)
qed


section \<open>The merge step is not atomic\<close>

text \<open>
  Claim C10.  \<open>agglomerative_merge\<close> is called with a request other than 0 on a
  level of blocks (not empty; the pointers of its map distinct, and they and the
  parents they name on the heap) where a type counted by the network has fewer than
  two blocks.  The call fails with "To few groups to perform merge", and only after
  the level of metablocks was built: the heap has one new node per block, block
  number \<open>i\<close> of the level has metablock number \<open>i\<close> as its parent and is its only
  child, the level above is populated, and the network the failed call leaves is
  not the one it was given.
\<close>

theorem agglomerative_merge_not_atomic:
  fixes sbm :: SBM
  assumes nz: "merges_to_make \<noteq> 0"
      and lvl: "map_of (nodes sbm) group_level = Some node_level" and ne: "node_level \<noteq> []"
      and gl: "group_level + 1 \<noteq> 0"
      and dist: "distinct (map snd node_level)"
      and ptrs: "\<forall>n\<in>set (map snd node_level). n < length (heap sbm) \<and>
             (\<forall>p. parent (heap sbm ! n) = Some p \<longrightarrow> p < length (heap sbm))"
      and few: "\<exists>i. 0 \<le> i \<and> i < int (length (node_type_counts sbm)) \<and>
                  type_count (node_type_counts sbm) i group_level < 2"
  shows "fst (agglomerative_merge default_sampler group_level merges_to_make sbm) = Inl TooFewGroups
     \<and> length (heap (snd (agglomerative_merge default_sampler group_level merges_to_make sbm)))
         = length (heap sbm) + length node_level
     \<and> (\<forall>i<length node_level.
           parent (heap (snd (agglomerative_merge default_sampler group_level merges_to_make sbm))
                     ! snd (node_level ! i)) = Some (length (heap sbm) + i)
         \<and> children (heap (snd (agglomerative_merge default_sampler group_level merges_to_make sbm))
                     ! (length (heap sbm) + i)) = [snd (node_level ! i)]
         \<and> level (heap (snd (agglomerative_merge default_sampler group_level merges_to_make sbm))
                     ! (length (heap sbm) + i)) = group_level + 1)
     \<and> level_map (snd (agglomerative_merge default_sampler group_level merges_to_make sbm))
          (group_level + 1) \<noteq> []
     \<and> snd (agglomerative_merge default_sampler group_level merges_to_make sbm) \<noteq> sbm"
proof -
  let ?net1 = "(get_level (group_level + 1) sbm)
                 \<lparr> nodes := AList.update (group_level + 1) [] (nodes (get_level (group_level + 1) sbm)) \<rparr>"
  let ?ns = "map snd node_level"
  have h1: "heap ?net1 = heap sbm" by simp
  have c1: "node_type_counts ?net1 = node_type_counts sbm" by simp
  have l1: "map_of (nodes ?net1) group_level = Some node_level"
    using lvl by (auto simp: update_conv' get_level_def add_level_def map_add_def)
  have ptrs1: "\<forall>n\<in>set ?ns. n < length (heap ?net1) \<and>
             (\<forall>p. parent (heap ?net1 ! n) = Some p \<longrightarrow> p < length (heap ?net1))"
    using ptrs unfolding h1 .
  from assign_blocks_own_block [OF gl dist ptrs1, of "[]" default_sampler]
  obtain sbm1 where r: "assign_blocks True group_level [] ?ns default_sampler ?net1 = (Inr (), sbm1)"
    and len: "length (heap sbm1) = length (heap sbm) + length node_level"
    and blk: "\<And>i. i < length node_level \<Longrightarrow>
           parent (heap sbm1 ! (?ns ! i)) = Some (length (heap sbm) + i)
         \<and> children (heap sbm1 ! (length (heap sbm) + i)) = [?ns ! i]
         \<and> level (heap sbm1 ! (length (heap sbm) + i)) = group_level + 1"
    and lm: "level_map sbm1 (group_level + 1) \<noteq> []"
    and fr: "\<And>l'. l' \<noteq> group_level + 1 \<Longrightarrow> map_of (nodes sbm1) l' = map_of (nodes ?net1) l'"
    and ct: "\<And>t l'. l' \<noteq> group_level + 1 \<Longrightarrow>
           type_count (node_type_counts sbm1) t l' = type_count (node_type_counts sbm) t l'"
    and lc: "length (node_type_counts sbm) \<le> length (node_type_counts sbm1)"
    using ne unfolding h1 c1 by auto
  have give: "give_every_node_at_level_own_group group_level default_sampler sbm = (Inr (), sbm1)"
    using initialize_blocks_one_per_node [OF lvl ne, of default_sampler] r
    by (simp add: give_every_node_at_level_own_group_def give_every_node_at_level_own_block_def)
  have exists: "map_of (nodes sbm1) group_level = Some node_level"
    using fr [of group_level] l1 by simp
  then have same: "get_level group_level sbm1 = sbm1"
    by (simp add: get_level_def add_level_def)
  from few obtain i where i: "0 \<le> i" "i < int (length (node_type_counts sbm))"
    "type_count (node_type_counts sbm) i group_level < 2" by blast
  have "i \<in> set (map int [0 ..< length (node_type_counts sbm1)])"
  proof -
    have "nat i \<in> {0 ..< length (node_type_counts sbm1)}" using i lc by simp
    then have "int (nat i) \<in> int ` {0 ..< length (node_type_counts sbm1)}" by (rule imageI)
    then show ?thesis using i by simp
  qed
  moreover have "type_count (node_type_counts sbm1) i group_level < 2"
    using ct [of group_level i] i by simp
  ultimately have "fst (too_few_groups (map int [0 ..< length (node_type_counts sbm1)]) group_level
                     (node_type_counts sbm1))"
    by (intro too_few_groups_True) blast
  then obtain counts where tf:
    "too_few_groups (map int [0 ..< length (node_type_counts sbm1)]) group_level
       (node_type_counts sbm1) = (True, counts)"
    by (cases "too_few_groups (map int [0 ..< length (node_type_counts sbm1)]) group_level
                 (node_type_counts sbm1)") auto
  have res: "agglomerative_merge default_sampler group_level merges_to_make sbm =
               (Inl TooFewGroups, sbm1\<lparr> node_type_counts := counts \<rparr>)"
    using nz give same tf by (simp add: agglomerative_merge_def Let_def)
  have "sbm1\<lparr> node_type_counts := counts \<rparr> \<noteq> sbm"
  proof
    assume "sbm1\<lparr> node_type_counts := counts \<rparr> = sbm"
    then have "heap (sbm1\<lparr> node_type_counts := counts \<rparr>) = heap sbm" by simp
    then have "length (heap sbm1) = length (heap sbm)" by simp
    with len ne show False by simp
  qed
  then show ?thesis using res len blk lm by (simp add: level_map_def)
qed

lemma to_string_digits [simp]:
  "to_string 0 = ''0''" "to_string 1 = ''1''" "to_string 2 = ''2''" "to_string 3 = ''3''"
  by (simp_all add: to_string_def digits_of.simps digit_char_def)

lemmas network_unfold =
  Network_add_node_def get_level_def add_level_def level_map_def bump_count_def Let_def
  create_block_node_def build_block_id_def

lemma one_node_one_block_eq:
  "one_node_one_block =
     \<lparr> heap = [(new_Node ''a'' 0 0)\<lparr> parent := Some 1 \<rparr>,
               (new_Node ''0-1_0'' 1 0)\<lparr> children := [0] \<rparr>],
       nodes = [(0, [(''a'', 0)]), (1, [(''0-1_0'', 1)])],
       node_type_counts = [(0, [(0, 1), (1, 1)])], sampler = sconst 0, EPS = 1 / 10,
       BETA = 3 / 2, GREEDY = False, N_CHECKS_PER_GROUP = 1, SIGMA_r = Dbl 2 \<rparr>"
  apply (simp add: one_node_one_block_def new_SBM_def give_every_node_at_level_own_group_def
        give_every_node_at_level_own_block_def Network_initialize_blocks_def network_unfold)
  apply (simp add: set_parent_def add_child_def new_Node_def)
  done

text \<open>
  The theorem at \<open>one_node_one_block\<close>: the single block of level 1 (node 1 of the
  heap) is given the metablock 2 before the call fails.
\<close>

theorem agglomerative_merge_not_atomic_witness:
  "fst (agglomerative_merge (sconst 0) 1 1 one_node_one_block) = Inl TooFewGroups
   \<and> length (heap (snd (agglomerative_merge (sconst 0) 1 1 one_node_one_block))) = 3
   \<and> parent (heap (snd (agglomerative_merge (sconst 0) 1 1 one_node_one_block)) ! 1) = Some 2
   \<and> children (heap (snd (agglomerative_merge (sconst 0) 1 1 one_node_one_block)) ! 2) = [1]
   \<and> level (heap (snd (agglomerative_merge (sconst 0) 1 1 one_node_one_block)) ! 2) = 2
   \<and> level_map (snd (agglomerative_merge (sconst 0) 1 1 one_node_one_block)) 2 \<noteq> []
   \<and> snd (agglomerative_merge (sconst 0) 1 1 one_node_one_block) \<noteq> one_node_one_block"
proof -
  have lvl: "map_of (nodes one_node_one_block) 1 = Some [(''0-1_0'', 1)]"
    by (simp add: one_node_one_block_eq)
  have ptrs: "\<forall>n\<in>set (map snd [(''0-1_0'', 1)]). n < length (heap one_node_one_block) \<and>
             (\<forall>p. parent (heap one_node_one_block ! n) = Some p
                   \<longrightarrow> p < length (heap one_node_one_block))"
    by (simp add: one_node_one_block_eq new_Node_def)
  have few: "\<exists>i. 0 \<le> i \<and> i < int (length (node_type_counts one_node_one_block)) \<and>
                  type_count (node_type_counts one_node_one_block) i 1 < 2"
    by (rule exI [of _ 0]) (simp add: one_node_one_block_eq type_count_def)
  have len: "length (heap one_node_one_block) = 2" by (simp add: one_node_one_block_eq)
  from agglomerative_merge_not_atomic
         [of 1 one_node_one_block 1 "[(''0-1_0'', 1)]" "sconst 0", OF _ lvl _ _ _ ptrs few]
  show ?thesis by (simp add: len)
qed

section \<open>The collapse loop and the errors of the merge step\<close>

lemma two_isolated_nodes_eq:
  "two_isolated_nodes =
     \<lparr> heap = [new_Node ''a'' 0 0, new_Node ''b'' 0 0],
       nodes = [(0, [(''a'', 0), (''b'', 1)])],
       node_type_counts = [(0, [(0, 2)])], sampler = sconst 0, EPS = 1 / 10,
       BETA = 3 / 2, GREEDY = False, N_CHECKS_PER_GROUP = 1, SIGMA_r = Dbl 2 \<rparr>"
  by (simp add: two_isolated_nodes_def new_SBM_def network_unfold)

lemma give_own_group_two_isolated_nodes:
  "give_every_node_at_level_own_group 0 (sconst 0) two_isolated_nodes =
     (Inr (),
      \<lparr> heap = [(new_Node ''a'' 0 0)\<lparr> parent := Some 2 \<rparr>,
                (new_Node ''b'' 0 0)\<lparr> parent := Some 3 \<rparr>,
                (new_Node ''0-1_0'' 1 0)\<lparr> children := [0] \<rparr>,
                (new_Node ''0-1_1'' 1 0)\<lparr> children := [1] \<rparr>],
        nodes = [(0, [(''a'', 0), (''b'', 1)]), (1, [(''0-1_0'', 2), (''0-1_1'', 3)])],
        node_type_counts = [(0, [(0, 2), (1, 2)])], sampler = sconst 0, EPS = 1 / 10,
        BETA = 3 / 2, GREEDY = False, N_CHECKS_PER_GROUP = 1, SIGMA_r = Dbl 2 \<rparr>)"
  apply (simp add: two_isolated_nodes_eq give_every_node_at_level_own_group_def
        give_every_node_at_level_own_block_def Network_initialize_blocks_def network_unfold)
  apply (simp add: set_parent_def add_child_def new_Node_def)
  done

lemma two_singleton_blocks_eq:
  "two_singleton_blocks =
      \<lparr> heap = [(new_Node ''a'' 0 0)\<lparr> parent := Some 2 \<rparr>,
                (new_Node ''b'' 0 0)\<lparr> parent := Some 3 \<rparr>,
                (new_Node ''0-1_0'' 1 0)\<lparr> children := [0] \<rparr>,
                (new_Node ''0-1_1'' 1 0)\<lparr> children := [1] \<rparr>],
        nodes = [(0, [(''a'', 0), (''b'', 1)]), (1, [(''0-1_0'', 2), (''0-1_1'', 3)])],
        node_type_counts = [(0, [(0, 2), (1, 2)])], sampler = sconst 0, EPS = 1 / 10,
        BETA = 3 / 2, GREEDY = False, N_CHECKS_PER_GROUP = 1, SIGMA_r = Dbl 2 \<rparr>"
  by (simp add: two_singleton_blocks_def give_own_group_two_isolated_nodes)

lemma give_own_group_two_singleton_blocks:
  "give_every_node_at_level_own_group 1 (sconst 0) two_singleton_blocks =
     (Inr (),
      \<lparr> heap = [(new_Node ''a'' 0 0)\<lparr> parent := Some 2 \<rparr>,
                (new_Node ''b'' 0 0)\<lparr> parent := Some 3 \<rparr>,
                (new_Node ''0-1_0'' 1 0)\<lparr> parent := Some 4, children := [0] \<rparr>,
                (new_Node ''0-1_1'' 1 0)\<lparr> parent := Some 5, children := [1] \<rparr>,
                (new_Node ''0-2_0'' 2 0)\<lparr> children := [2] \<rparr>,
                (new_Node ''0-2_1'' 2 0)\<lparr> children := [3] \<rparr>],
        nodes = [(0, [(''a'', 0), (''b'', 1)]), (1, [(''0-1_0'', 2), (''0-1_1'', 3)]),
                 (2, [(''0-2_0'', 4), (''0-2_1'', 5)])],
        node_type_counts = [(0, [(0, 2), (1, 2), (2, 2)])], sampler = sconst 0, EPS = 1 / 10,
        BETA = 3 / 2, GREEDY = False, N_CHECKS_PER_GROUP = 1, SIGMA_r = Dbl 2 \<rparr>)"
  apply (simp add: two_singleton_blocks_eq give_every_node_at_level_own_group_def
        give_every_node_at_level_own_block_def Network_initialize_blocks_def network_unfold)
  apply (simp add: set_parent_def add_child_def new_Node_def)
  done

lemma two_singleton_blocks_meta_eq:
  "two_singleton_blocks_meta =
      \<lparr> heap = [(new_Node ''a'' 0 0)\<lparr> parent := Some 2 \<rparr>,
                (new_Node ''b'' 0 0)\<lparr> parent := Some 3 \<rparr>,
                (new_Node ''0-1_0'' 1 0)\<lparr> parent := Some 4, children := [0] \<rparr>,
                (new_Node ''0-1_1'' 1 0)\<lparr> parent := Some 5, children := [1] \<rparr>,
                (new_Node ''0-2_0'' 2 0)\<lparr> children := [2] \<rparr>,
                (new_Node ''0-2_1'' 2 0)\<lparr> children := [3] \<rparr>],
        nodes = [(0, [(''a'', 0), (''b'', 1)]), (1, [(''0-1_0'', 2), (''0-1_1'', 3)]),
                 (2, [(''0-2_0'', 4), (''0-2_1'', 5)])],
        node_type_counts = [(0, [(0, 2), (1, 2), (2, 2)])], sampler = sconst 0, EPS = 1 / 10,
        BETA = 3 / 2, GREEDY = False, N_CHECKS_PER_GROUP = 1, SIGMA_r = Dbl 2 \<rparr>"
  by (simp add: two_singleton_blocks_meta_def give_own_group_two_singleton_blocks)

text \<open>
  The merge step on two blocks that hold one isolated node each, in the mode that
  samples its candidates: \<open>propose_move\<close> asks the sampler for a neighbour of the
  first block, the block has none, and the sampler fails.
\<close>

lemma agglomerative_merge_two_singleton_blocks:
  "agglomerative_merge (sconst 0) 1 1 two_singleton_blocks =
     (Inl SampleEmpty, two_singleton_blocks_meta)"
  apply (simp add: agglomerative_merge_def give_own_group_two_singleton_blocks)
  apply (simp add: two_singleton_blocks_meta_eq get_level_def add_level_def level_map_def
      type_count_def bump_count_def propose_move_def get_nodes_of_type_at_level_def
      get_nodes_from_level_def new_Node_def get_connections_to_level_def sample_def)
  done

lemma two_singleton_blocks_facts:
  "level_map two_singleton_blocks 1 = [(''0-1_0'', 2), (''0-1_1'', 3)]"
  "get_level 1 two_singleton_blocks = two_singleton_blocks"
  "SIGMA_r two_singleton_blocks = Dbl 2"
  by (simp_all add: two_singleton_blocks_eq get_level_def add_level_def level_map_def)

lemma num_merges_to_make_2_2_1: "num_merges_to_make (Dbl 2) 2 1 = Inr 1"
  by (simp add: num_merges_to_make_def double_eval)

text \<open>
  Claim C6, as amended.  In an iteration of the collapse loop (the block count above
  the target, \<open>num_merges\<close> the number of merges that lines 524--534 ask for),
  whatever \<open>agglomerative_merge\<close> throws is caught, not only the error
  of too few blocks: the loop ends and the step records accumulated so far are
  returned, with the network as the failed merge step left it.  An error of the
  rest of the body (the sweeps, \<open>clean_empty_groups\<close> and \<open>compute_entropy\<close> after a
  merge that succeeded) is not caught and reaches the caller.
\<close>

theorem collapse_loop_catches_every_merge_error:
  assumes "desired_num_groups < curr_num_groups"
    and "num_merges_to_make (SIGMA_r sbm) curr_num_groups desired_num_groups = Inr num_merges"
  shows "(agglomerative_merge default_sampler (node_level + 1) num_merges sbm
            = (Inl e, sbm1) \<and> e \<noteq> Undefined \<longrightarrow>
          collapse_loop default_sampler node_level num_mcmc_steps desired_num_groups
            curr_num_groups step_results sbm = Some (Inr step_results, sbm1))
       \<and> (agglomerative_merge default_sampler (node_level + 1) num_merges sbm
            = (Inr merge_results, sbm1) \<and>
          equilibrate num_mcmc_steps node_level merge_results sbm1 = (Inl e', sbm2) \<longrightarrow>
          collapse_loop default_sampler node_level num_mcmc_steps desired_num_groups
            curr_num_groups step_results sbm = Some (Inl e', sbm2))"
  using assms by (subst collapse_loop.simps, simp)+

text \<open>
  The theorem at \<open>two_singleton_blocks\<close>, two blocks against the target 1: the merge
  step fails with the sampler's error and the loop returns the empty list of
  records.
\<close>

theorem collapse_loop_catches_every_merge_error_witness:
  "collapse_loop (sconst 0) 0 0 1 2 [] two_singleton_blocks
     = Some (Inr [], two_singleton_blocks_meta)"
  using collapse_loop_catches_every_merge_error
          [of 1 2 two_singleton_blocks 1 "sconst 0" 0 SampleEmpty two_singleton_blocks_meta 0 "[]"]
  by (simp add: two_singleton_blocks_facts num_merges_to_make_2_2_1
        agglomerative_merge_two_singleton_blocks)

text \<open>
  The claim as stated fails: \<open>collapse_groups(0, 0, 1)\<close> on two isolated nodes, with
  \<open>GREEDY\<close> off.  The first merge step raises the error of the sampler, which is not
  the error of too few blocks; \<open>collapse_groups\<close> does not pass it on but returns,
  with no step record.
\<close>

theorem collapse_groups_swallows_sampler_error:
  "num_merges_to_make (Dbl 2) 2 1 = Inr 1
   \<and> agglomerative_merge (sconst 0) 1 1 two_singleton_blocks
     = (Inl SampleEmpty, two_singleton_blocks_meta)
   \<and> collapse_groups (sconst 0) 0 0 1 two_isolated_nodes
       = Some (Inr [], two_singleton_blocks_meta)"
proof -
  have give: "give_every_node_at_level_own_group 0 (sconst 0) two_isolated_nodes
                = (Inr (), two_singleton_blocks)"
    by (simp only: give_own_group_two_isolated_nodes two_singleton_blocks_eq)
  have "collapse_groups (sconst 0) 0 0 1 two_isolated_nodes
          = collapse_loop (sconst 0) 0 0 1 2 [] two_singleton_blocks"
    by (simp add: collapse_groups_def give two_singleton_blocks_facts)
  also have "\<dots> = Some (Inr [], two_singleton_blocks_meta)"
    by (subst collapse_loop.simps)
       (simp add: two_singleton_blocks_facts num_merges_to_make_2_2_1
          agglomerative_merge_two_singleton_blocks)
  finally show ?thesis
    by (simp add: num_merges_to_make_2_2_1 agglomerative_merge_two_singleton_blocks)
qed

section \<open>Where \<open>Network::initialize_blocks\<close> takes its random choices from\<close>

text \<open>
  \<open>Network::initialize_blocks\<close> runs on the network part of the engine only: whatever
  extends the network record, the sampler of the engine included, comes back as it went
  in.  The blocks it hands to the nodes are drawn from \<open>block_sampler\<close>.
\<close>

lemma more_create_block_node:
  "Network.more (snd (create_block_node t l net)) = Network.more net"
  by (simp add: create_block_node_def Network_add_node_def get_level_def add_level_def Let_def)

lemma more_create_blocks:
  "Network.more (snd (create_blocks n t l net)) = Network.more net"
proof (induction n arbitrary: net)
  case 0
  then show ?case by simp
next
  case (Suc n)
  show ?case
    using Suc [of "snd (create_block_node t l net)"] more_create_block_node [of t l net]
    by (auto split: prod.splits sum.splits)
qed

lemma more_blocks_for_types:
  "Network.more (snd (blocks_for_types ts n l net)) = Network.more net"
proof (induction ts arbitrary: net)
  case Nil
  then show ?case by simp
next
  case (Cons t ts)
  show ?case
    using Cons [of "snd (create_blocks n t l net)"] more_create_blocks [of n t l net]
    by (auto split: prod.splits sum.splits)
qed

lemma more_assign_blocks:
  "Network.more (snd (assign_blocks one l tbs ns bs net)) = Network.more net"
proof (induction ns arbitrary: net bs)
  case Nil
  then show ?case by simp
next
  case (Cons n ns)
  show ?case
  proof (cases one)
    case True
    obtain r net1 where c: "create_block_node (type (heap net ! n)) (l + 1) net = (r, net1)"
      by (cases "create_block_node (type (heap net ! n)) (l + 1) net")
    have m1: "Network.more net1 = Network.more net"
      using more_create_block_node [of "type (heap net ! n)" "l + 1" net] c by simp
    show ?thesis
    proof (cases r)
      case (Inl e)
      then show ?thesis using True c m1 by (simp add: Let_def)
    next
      case (Inr b)
      then show ?thesis
        using True c m1 Cons [of bs "net1\<lparr>heap := set_parent n b (heap net1)\<rparr>"]
        by (simp add: Let_def)
    qed
  next
    case False
    obtain r s1 where c:
      "sample (case map_of tbs (type (heap net ! n)) of Some bs \<Rightarrow> bs | None \<Rightarrow> []) bs = (r, s1)"
      by (cases "sample (case map_of tbs (type (heap net ! n)) of Some bs \<Rightarrow> bs | None \<Rightarrow> []) bs")
    show ?thesis
    proof (cases r)
      case (Inl e)
      then show ?thesis using False c by (simp add: Let_def)
    next
      case (Inr b)
      then show ?thesis
        using False c Cons [of s1 "net\<lparr>heap := set_parent n b (heap net)\<rparr>"]
        by (simp add: Let_def)
    qed
  qed
qed

lemma more_Network_initialize_blocks:
  "Network.more (snd (Network_initialize_blocks k l bs net)) = Network.more net"
proof -
  define net1 where
    "net1 = (get_level (l + 1) net)\<lparr> nodes := AList.update (l + 1) [] (nodes (get_level (l + 1) net)) \<rparr>"
  have m1: "Network.more net1 = Network.more net"
    by (simp add: net1_def get_level_def add_level_def)
  have unf: "Network_initialize_blocks k l bs net =
     (case map_of (nodes net1) l of
           None \<Rightarrow> (Inl OutOfRange, net1)
         | Some node_level \<Rightarrow>
             if length node_level = 0 then (Inl LevelEmpty, net1)
             else
                case (if \<not> (k = - 1)
                      then blocks_for_types (map fst (node_type_counts net1)) (nat k)
                             (l + 1) net1
                      else (Inr [], net1)) of
                  (Inl e, net2) \<Rightarrow> (Inl e, net2)
                | (Inr type_to_blocks, net2) \<Rightarrow>
                    assign_blocks (k = - 1) l type_to_blocks (map snd node_level)
                      bs net2)"
    by (simp only: Network_initialize_blocks_def Let_def net1_def)
  show ?thesis
  proof (cases "map_of (nodes net1) l")
    case None
    then show ?thesis by (simp add: unf m1)
  next
    case (Some node_level)
    show ?thesis
    proof (cases "length node_level = 0")
      case True
      then show ?thesis using Some by (simp add: unf m1)
    next
      case False
      obtain r net2 where c: "(if \<not> (k = - 1)
                      then blocks_for_types (map fst (node_type_counts net1)) (nat k)
                             (l + 1) net1
                      else (Inr [], net1)) = (r, net2)"
        by (cases "(if \<not> (k = - 1)
                      then blocks_for_types (map fst (node_type_counts net1)) (nat k)
                             (l + 1) net1
                      else (Inr [], net1))")
      have m2: "Network.more net2 = Network.more net"
        using c m1 more_blocks_for_types [of "map fst (node_type_counts net1)" "nat k" "l + 1" net1]
        by (auto split: if_splits)
      show ?thesis
        using Some False c m2 more_assign_blocks [of "k = - 1" l _ "map snd node_level" bs net2]
        by (cases r) (simp_all add: unf)
    qed
  qed
qed

lemma sampler_more:
  fixes r r' :: "'a SBM_scheme"
  assumes "Network.more r = Network.more r'"
  shows "sampler r = sampler r'"
  using assms by (cases r, cases r') simp

lemma sampler_Network_initialize_blocks:
  "sampler (snd (Network_initialize_blocks k l bs sbm)) = sampler sbm"
  by (rule sampler_more) (rule more_Network_initialize_blocks)

lemma initialize_two_blocks_sconst_0:
  "Network_initialize_blocks 2 0 (sconst 0) two_isolated_nodes =
     (Inr (),
      \<lparr> heap = [(new_Node ''a'' 0 0)\<lparr> parent := Some 2 \<rparr>,
                (new_Node ''b'' 0 0)\<lparr> parent := Some 2 \<rparr>,
                (new_Node ''0-1_0'' 1 0)\<lparr> children := [0, 1] \<rparr>,
                new_Node ''0-1_1'' 1 0],
        nodes = [(0, [(''a'', 0), (''b'', 1)]), (1, [(''0-1_0'', 2), (''0-1_1'', 3)])],
        node_type_counts = [(0, [(0, 2), (1, 2)])], sampler = sconst 0, EPS = 1 / 10,
        BETA = 3 / 2, GREEDY = False, N_CHECKS_PER_GROUP = 1, SIGMA_r = Dbl 2 \<rparr>)"
  apply (simp add: two_isolated_nodes_eq Network_initialize_blocks_def network_unfold sample_def
        numeral_2_eq_2)
  apply (simp add: set_parent_def add_child_def new_Node_def numeral_2_eq_2)
  done

lemma initialize_two_blocks_sconst_1:
  "Network_initialize_blocks 2 0 (sconst 1) two_isolated_nodes =
     (Inr (),
      \<lparr> heap = [(new_Node ''a'' 0 0)\<lparr> parent := Some 3 \<rparr>,
                (new_Node ''b'' 0 0)\<lparr> parent := Some 3 \<rparr>,
                new_Node ''0-1_0'' 1 0,
                (new_Node ''0-1_1'' 1 0)\<lparr> children := [0, 1] \<rparr>],
        nodes = [(0, [(''a'', 0), (''b'', 1)]), (1, [(''0-1_0'', 2), (''0-1_1'', 3)])],
        node_type_counts = [(0, [(0, 2), (1, 2)])], sampler = sconst 0, EPS = 1 / 10,
        BETA = 3 / 2, GREEDY = False, N_CHECKS_PER_GROUP = 1, SIGMA_r = Dbl 2 \<rparr>)"
  apply (simp add: two_isolated_nodes_eq Network_initialize_blocks_def network_unfold sample_def
        numeral_2_eq_2)
  apply (simp add: set_parent_def add_child_def new_Node_def numeral_2_eq_2)
  done

lemma initialize_three_blocks_sconst_0:
  "Network_initialize_blocks 3 0 (sconst 0) two_isolated_nodes =
     (Inr (),
      \<lparr> heap = [(new_Node ''a'' 0 0)\<lparr> parent := Some 2 \<rparr>,
                (new_Node ''b'' 0 0)\<lparr> parent := Some 2 \<rparr>,
                (new_Node ''0-1_0'' 1 0)\<lparr> children := [0, 1] \<rparr>,
                new_Node ''0-1_1'' 1 0, new_Node ''0-1_2'' 1 0],
        nodes = [(0, [(''a'', 0), (''b'', 1)]),
                 (1, [(''0-1_0'', 2), (''0-1_1'', 3), (''0-1_2'', 4)])],
        node_type_counts = [(0, [(0, 2), (1, 3)])], sampler = sconst 0, EPS = 1 / 10,
        BETA = 3 / 2, GREEDY = False, N_CHECKS_PER_GROUP = 1, SIGMA_r = Dbl 2 \<rparr>)"
  apply (simp add: two_isolated_nodes_eq Network_initialize_blocks_def network_unfold sample_def
        numeral_2_eq_2 numeral_3_eq_3)
  apply (simp add: set_parent_def add_child_def new_Node_def numeral_2_eq_2 numeral_3_eq_3)
  done

text \<open>
  C5.  The claim: every random choice is drawn from the single seeded sampler the engine
  owns, and no operation brings a source of randomness of its own.
  \<open>Network::initialize_blocks\<close> does: on the engine \<open>two_isolated_nodes\<close>, whose sampler
  is \<open>sconst 0\<close>, the call \<open>initialize_blocks(2, 0)\<close> puts both nodes under the first new
  block when its local \<open>block_sampler\<close> draws zeros and under the second when it draws
  ones; the engine's own sampler is the same before and after, in both runs.  The
  partition that every later sweep starts from is therefore not a function of the
  engine's seed.
\<close>

theorem initialize_blocks_draws_from_local_sampler:
  "sampler two_isolated_nodes = sconst 0 \<and>
   fst (Network_initialize_blocks 2 0 (sconst 0) two_isolated_nodes) = Inr () \<and>
   fst (Network_initialize_blocks 2 0 (sconst 1) two_isolated_nodes) = Inr () \<and>
   map (\<lambda>n. parent (heap (snd (Network_initialize_blocks 2 0 (sconst 0) two_isolated_nodes)) ! n))
     [0, 1] = [Some 2, Some 2] \<and>
   map (\<lambda>n. parent (heap (snd (Network_initialize_blocks 2 0 (sconst 1) two_isolated_nodes)) ! n))
     [0, 1] = [Some 3, Some 3] \<and>
   sampler (snd (Network_initialize_blocks 2 0 (sconst 0) two_isolated_nodes)) = sconst 0 \<and>
   sampler (snd (Network_initialize_blocks 2 0 (sconst 1) two_isolated_nodes)) = sconst 0"
proof -
  have s: "sampler two_isolated_nodes = sconst 0"
    by (simp add: two_isolated_nodes_eq)
  show ?thesis
    unfolding initialize_two_blocks_sconst_0 initialize_two_blocks_sconst_1
    using s by (simp add: new_Node_def)
qed

end
